theory Spec2Isabelle
  imports Complex_Main "HOL-Library.AList"
begin

section \<open>The price-streaming client of src/contexts/WebSocketContext.tsx\<close>

text \<open>
  The provider component keeps its state in React state cells and refs and reacts to
  events of one WebSocket at a time. The embedding makes that state a record, each
  handler of the source a function from state to state, and the browser objects the
  handlers act on (the sockets, the timers, the storage cell, the clock) fields of the
  same record. Strings are byte strings; numbers are the values of JavaScript numbers,
  which the code only stores and copies. Each handler runs to its end before the next event: a
  state update (\<^verbatim>\<open>setIsAuthenticated\<close>, \<^verbatim>\<open>setPrices\<close>, ...) is visible to whatever runs
  next, and the \<^verbatim>\<open>await\<close> on the digest in the handshake is over before the next event
  arrives.
\<close>

subsection \<open>Data\<close>

text \<open>A value as \<^verbatim>\<open>JSON.parse\<close> returns it. A number is a finite double (\<open>JNumber\<close>,
  with \<open>-0\<close> apart as \<open>JNegZero\<close>) or one of the infinities, which a literal too large
  for a double, such as \<^verbatim>\<open>1e400\<close>, parses to.\<close>

datatype json =
    JNull
  | JBool bool
  | JNumber real
  | JNegZero
  | JInfinity
  | JNegInfinity
  | JString string
  | JArray "json list"
  | JObject "(string \<times> json) list"

text \<open>What \<^verbatim>\<open>data.price\<close> is and what the price map holds for a symbol: a parsed value,
  or \<open>None\<close> for \<^verbatim>\<open>undefined\<close> (the frame has no such property). The interface
  \<^verbatim>\<open>PriceUpdate\<close> declares a number; nothing checks it when the frame arrives.\<close>

type_synonym price = "json option"

text \<open>\<^verbatim>\<open>WebSocket.readyState\<close>.\<close>

datatype readyState = CONNECTING | OPEN | CLOSING | CLOSED

text \<open>The four client-to-server messages, after \<^verbatim>\<open>JSON.stringify\<close>:
  \<^verbatim>\<open>{action:'authenticate', auth_data:{type:'request_challenge', api_key}}\<close>,
  \<^verbatim>\<open>{action:'authenticate', auth_data:{type:'challenge_response', challenge_id, signature, api_key}}\<close>,
  \<^verbatim>\<open>{action:'subscribe', symbols}\<close> and \<^verbatim>\<open>{action:'unsubscribe', symbols}\<close>.\<close>

datatype client_msg =
    RequestChallenge string
  | ChallengeResponse string string string
  | SubscribeMsg "string list"
  | UnsubscribeMsg "string list"

text \<open>An inbound frame as the handlers see it after \<^verbatim>\<open>JSON.parse\<close>: the value of
  \<^verbatim>\<open>data.type\<close> with the fields the handlers read. \<open>Malformed\<close> is a frame on
  which \<^verbatim>\<open>JSON.parse\<close> (or reading \<^verbatim>\<open>data.type\<close>) throws; \<open>OtherMessage\<close> is
  a well-formed frame of any other type. The symbol of a price update is given as the
  property key that \<^verbatim>\<open>[update.symbol]\<close> makes of it.\<close>

datatype server_msg =
    AuthRequired
  | Challenge string string
  | Authenticated string
  | AuthError string
  | PriceUpdate string price
  | ErrorMessage string
  | OtherMessage
  | Malformed

datatype exn = InvalidStateError

text \<open>One WebSocket object. \<open>outbox\<close> is what \<^verbatim>\<open>send\<close> has handed to the network, in
  order. \<open>authListener\<close> is the \<^verbatim>\<open>messageHandler\<close> closure that \<^verbatim>\<open>authenticate\<close>
  registered with \<^verbatim>\<open>addEventListener\<close>, given by the timer id it captured
  (\<^verbatim>\<open>authTimeout\<close>); \<open>authPending\<close> says that the promise \<^verbatim>\<open>authenticate\<close> returned
  for this socket is not settled yet.\<close>

record transport =
  readyState :: readyState
  outbox :: "client_msg list"
  authListener :: "nat option"
  authPending :: bool

datatype timer_callback = AuthTimeoutCb nat | ReconnectCb

record pending_timer =
  timerId :: nat
  delay :: nat
  due :: int
  callback :: timer_callback

text \<open>The value under \<^verbatim>\<open>PRICE_CACHE_KEY\<close> in \<^verbatim>\<open>localStorage\<close>, as the initialiser
  reads it: no item (\<^verbatim>\<open>getItem\<close> gives \<^verbatim>\<open>null\<close> or the empty string), a text on which
  \<^verbatim>\<open>JSON.parse\<close> throws, or an object whose \<^verbatim>\<open>data\<close> and \<^verbatim>\<open>timestamp\<close> properties
  may each be absent.\<close>

datatype cached =
    NoItem
  | Unparsable
  | Snapshot "(string \<times> price) list option" "int option"

text \<open>The props of \<^verbatim>\<open>WebSocketProvider\<close>.\<close>

record props =
  url :: string
  apiKey :: "string option"
  enabled :: bool
  reconnectInterval :: nat

text \<open>What the browser decides: whether \<^verbatim>\<open>window\<close> is defined, the SHA-256 digest of
  \<^verbatim>\<open>crypto.subtle\<close> (bytes to bytes), whether \<^verbatim>\<open>new WebSocket(url)\<close> accepts the
  URL (it throws a SyntaxError otherwise), and whether \<^verbatim>\<open>localStorage.setItem\<close> throws
  on a value (quota exceeded).\<close>

record platform =
  hasWindow :: bool
  digest :: "nat list \<Rightarrow> nat list"
  urlAccepted :: "string \<Rightarrow> bool"
  setItemThrows :: "cached \<Rightarrow> bool"

record state =
  isConnected :: bool
  error :: "string option"
  isAuthenticated :: bool
  sessionToken :: "string option"
  prices :: "(string \<times> price) list"
  wsRef :: "nat option"
  reconnectTimeoutRef :: "nat option"
  subscribedSymbolsRef :: "string list"
  authenticationInProgressRef :: bool
  connectionInProgressRef :: bool
  sockets :: "transport list"
  timers :: "pending_timer list"
  nextTimerId :: nat
  localStorage :: cached
  now :: int

definition PRICE_CACHE_EXPIRY_MS :: int where
  "PRICE_CACHE_EXPIRY_MS = 24 * 60 * 60 * 1000"

definition AUTH_TIMEOUT_MS :: nat where
  "AUTH_TIMEOUT_MS = 10000"

subsection \<open>Browser primitives\<close>

text \<open>\<^verbatim>\<open>!apiKey\<close>: an absent or empty credential is falsy.\<close>

fun noApiKey :: "string option \<Rightarrow> bool" where
  "noApiKey None = True"
| "noApiKey (Some k) = (k = [])"

text \<open>\<^verbatim>\<open>WebSocket.send\<close>: throws while CONNECTING, queues the frame while OPEN, drops
  it silently while CLOSING or CLOSED.\<close>

definition send :: "client_msg \<Rightarrow> transport \<Rightarrow> exn + transport" where
  "send m t =
     (case readyState t of
        CONNECTING \<Rightarrow> Inl InvalidStateError
      | OPEN \<Rightarrow> Inr (t\<lparr>outbox := outbox t @ [m]\<rparr>)
      | CLOSING \<Rightarrow> Inr t
      | CLOSED \<Rightarrow> Inr t)"

text \<open>\<^verbatim>\<open>WebSocket.close\<close>: starts the closing handshake unless it has started already.\<close>

definition close :: "transport \<Rightarrow> transport" where
  "close t =
     (case readyState t of
        CONNECTING \<Rightarrow> t\<lparr>readyState := CLOSING\<rparr>
      | OPEN \<Rightarrow> t\<lparr>readyState := CLOSING\<rparr>
      | CLOSING \<Rightarrow> t
      | CLOSED \<Rightarrow> t)"

definition ws_send :: "nat \<Rightarrow> client_msg \<Rightarrow> state \<Rightarrow> exn + state" where
  "ws_send i m s =
     (case send m (sockets s ! i) of
        Inl e \<Rightarrow> Inl e
      | Inr t \<Rightarrow> Inr (s\<lparr>sockets := (sockets s)[i := t]\<rparr>))"

definition ws_close :: "nat \<Rightarrow> state \<Rightarrow> state" where
  "ws_close i s = s\<lparr>sockets := (sockets s)[i := close (sockets s ! i)]\<rparr>"

definition newWebSocket :: transport where
  "newWebSocket = \<lparr>readyState = CONNECTING, outbox = [], authListener = None, authPending = False\<rparr>"

definition setTimeout :: "timer_callback \<Rightarrow> nat \<Rightarrow> state \<Rightarrow> nat \<times> state" where
  "setTimeout cb d s =
     (nextTimerId s,
      s\<lparr>timers := timers s @
           [\<lparr>timerId = nextTimerId s, delay = d, due = now s + int d, callback = cb\<rparr>],
        nextTimerId := Suc (nextTimerId s)\<rparr>)"

definition clearTimeout :: "nat \<Rightarrow> state \<Rightarrow> state" where
  "clearTimeout tid s = s\<lparr>timers := filter (\<lambda>t. timerId t \<noteq> tid) (timers s)\<rparr>"

text \<open>\<^verbatim>\<open>Set.prototype.add\<close> on a set kept in insertion order.\<close>

definition set_add :: "string list \<Rightarrow> string \<Rightarrow> string list" where
  "set_add xs x = (if x \<in> set xs then xs else xs @ [x])"

text \<open>\<^verbatim>\<open>Set.prototype.delete\<close>.\<close>

definition set_delete :: "string list \<Rightarrow> string \<Rightarrow> string list" where
  "set_delete xs x = filter (\<lambda>y. y \<noteq> x) xs"

subsection \<open>The signature (\<^verbatim>\<open>sha256\<close>, lines 71-77)\<close>

text \<open>\<^verbatim>\<open>new TextEncoder().encode\<close> on a byte string.\<close>

definition textEncode :: "string \<Rightarrow> nat list" where
  "textEncode msg = map of_char msg"

definition base64Alphabet :: string where
  "base64Alphabet = ''ABCDEFGHIJKLMNOPQRSTUVWXYZabcdefghijklmnopqrstuvwxyz0123456789+/''"

definition b64 :: "nat \<Rightarrow> char" where
  "b64 n = base64Alphabet ! (n mod 64)"

text \<open>\<^verbatim>\<open>btoa(String.fromCharCode(...bytes))\<close>: three bytes give four characters, the
  last group is padded with \<open>=\<close>.\<close>

fun btoa :: "nat list \<Rightarrow> string" where
  "btoa (a # b # c # rest) =
     b64 (a div 4) # b64 ((a mod 4) * 16 + b div 16) # b64 ((b mod 16) * 4 + c div 64) #
     b64 (c mod 64) # btoa rest"
| "btoa [a, b] =
     [b64 (a div 4), b64 ((a mod 4) * 16 + b div 16), b64 ((b mod 16) * 4), CHR ''='']"
| "btoa [a] = [b64 (a div 4), b64 ((a mod 4) * 16), CHR ''='', CHR ''='']"
| "btoa [] = []"

definition sha256 :: "platform \<Rightarrow> string \<Rightarrow> string" where
  "sha256 P message = btoa (digest P (textEncode message))"

subsection \<open>The price cache (lines 44-62 and 166-178)\<close>

text \<open>The initialiser of the \<^verbatim>\<open>prices\<close> state. A missing \<^verbatim>\<open>timestamp\<close> makes the
  comparison false (NaN); a missing \<^verbatim>\<open>data\<close> makes \<^verbatim>\<open>Object.keys(data)\<close> throw, which
  the \<^verbatim>\<open>catch\<close> turns into the empty map.\<close>

definition loadCachedPrices :: "platform \<Rightarrow> cached \<Rightarrow> int \<Rightarrow> (string \<times> price) list" where
  "loadCachedPrices P item dateNow =
     (if hasWindow P then
        (case item of
           NoItem \<Rightarrow> []
         | Unparsable \<Rightarrow> []
         | Snapshot d ts \<Rightarrow>
             (case ts of
                None \<Rightarrow> []
              | Some t \<Rightarrow>
                  if dateNow - t < PRICE_CACHE_EXPIRY_MS then
                    (case d of None \<Rightarrow> [] | Some m \<Rightarrow> m)
                  else []))
      else [])"

text \<open>What \<^verbatim>\<open>JSON.parse\<close> reads back from \<^verbatim>\<open>JSON.stringify(v)\<close>: an infinite number
  is written as \<^verbatim>\<open>null\<close> and \<open>-0\<close> as \<^verbatim>\<open>0\<close>, at any depth.\<close>

fun stringified :: "json \<Rightarrow> json" where
  "stringified JInfinity = JNull"
| "stringified JNegInfinity = JNull"
| "stringified JNegZero = JNumber 0"
| "stringified (JArray vs) = JArray (map stringified vs)"
| "stringified (JObject kvs) = JObject (map (map_prod id stringified) kvs)"
| "stringified JNull = JNull"
| "stringified (JBool b) = JBool b"
| "stringified (JNumber r) = JNumber r"
| "stringified (JString t) = JString t"

text \<open>What is read back from \<^verbatim>\<open>JSON.stringify\<close> of the price map: a property whose
  value is \<^verbatim>\<open>undefined\<close> is left out.\<close>

definition storedData :: "(string \<times> price) list \<Rightarrow> (string \<times> price) list" where
  "storedData m =
     map (map_prod id (map_option stringified)) (filter (\<lambda>kv. snd kv \<noteq> None) m)"

text \<open>The effect that depends on \<^verbatim>\<open>[prices]\<close>; React runs it after every render in
  which \<^verbatim>\<open>prices\<close> is a new object. The stored item is given as a later
  \<^verbatim>\<open>JSON.parse\<close> reads it.\<close>

definition persistPrices :: "platform \<Rightarrow> state \<Rightarrow> state" where
  "persistPrices P s =
     (if hasWindow P \<and> prices s \<noteq> [] then
        (let item = Snapshot (Some (storedData (prices s))) (Some (now s)) in
         if setItemThrows P item then s else s\<lparr>localStorage := item\<rparr>)
      else s)"

text \<open>\<^verbatim>\<open>setPrices(prev => ({...prev, [symbol]: price}))\<close>, then the render and its effect.\<close>

definition setPrices :: "platform \<Rightarrow> string \<Rightarrow> price \<Rightarrow> state \<Rightarrow> state" where
  "setPrices P symbol p s = persistPrices P (s\<lparr>prices := AList.update symbol p (prices s)\<rparr>)"

subsection \<open>Authentication (lines 80-164) and the open handler (lines 205-230)\<close>

datatype 'a promise = Pending | Resolved 'a

text \<open>The part of \<^verbatim>\<open>ws.onopen\<close> after \<^verbatim>\<open>await authenticate(ws)\<close>. An exception of
  \<^verbatim>\<open>send\<close> is not caught there: the handler stops.\<close>

definition onopen_resume :: "nat \<Rightarrow> bool \<Rightarrow> state \<Rightarrow> state" where
  "onopen_resume i authSuccess s =
     (if authSuccess then
        (if subscribedSymbolsRef s \<noteq> [] then
           (case ws_send i (SubscribeMsg (subscribedSymbolsRef s)) s of
              Inl e \<Rightarrow> s
            | Inr s' \<Rightarrow> s')
         else s)
      else ws_close i s)"

text \<open>\<^verbatim>\<open>resolve(b)\<close> of the promise of socket \<open>i\<close>: the first call settles it and
  resumes \<^verbatim>\<open>ws.onopen\<close>; a later call does nothing.\<close>

definition resolve :: "nat \<Rightarrow> bool \<Rightarrow> state \<Rightarrow> state" where
  "resolve i b s =
     (if authPending (sockets s ! i) then
        onopen_resume i b (s\<lparr>sockets := (sockets s)[i := (sockets s ! i)\<lparr>authPending := False\<rparr>]\<rparr>)
      else s)"

definition removeEventListener :: "nat \<Rightarrow> state \<Rightarrow> state" where
  "removeEventListener i s =
     s\<lparr>sockets := (sockets s)[i := (sockets s ! i)\<lparr>authListener := None\<rparr>]\<rparr>"

text \<open>The callback of \<^verbatim>\<open>authTimeout\<close>.\<close>

definition authTimeoutCallback :: "nat \<Rightarrow> state \<Rightarrow> state" where
  "authTimeoutCallback i s =
     resolve i False (s\<lparr>error := Some ''Authentication timeout'',
                        authenticationInProgressRef := False\<rparr>)"

text \<open>The \<^verbatim>\<open>catch\<close> block of \<^verbatim>\<open>messageHandler\<close>.\<close>

definition messageHandlerCatch :: "nat \<Rightarrow> nat \<Rightarrow> state \<Rightarrow> state" where
  "messageHandlerCatch i authTimeout s =
     resolve i False
       ((removeEventListener i (clearTimeout authTimeout s))
          \<lparr>error := Some ''Authentication error'', authenticationInProgressRef := False\<rparr>)"

text \<open>\<^verbatim>\<open>messageHandler\<close> of the handshake on socket \<open>i\<close>, for the credential \<open>k\<close> and
  the timer \<open>authTimeout\<close> of its closure.\<close>

fun messageHandler :: "platform \<Rightarrow> string \<Rightarrow> nat \<Rightarrow> nat \<Rightarrow> server_msg \<Rightarrow> state \<Rightarrow> state" where
  "messageHandler P k i authTimeout AuthRequired s =
     (case ws_send i (RequestChallenge k) s of
        Inl e \<Rightarrow> messageHandlerCatch i authTimeout s
      | Inr s' \<Rightarrow> s')"
| "messageHandler P k i authTimeout (Challenge challenge challenge_id) s =
     (case ws_send i (ChallengeResponse challenge_id (sha256 P (challenge @ '':'' @ k)) k) s of
        Inl e \<Rightarrow> messageHandlerCatch i authTimeout s
      | Inr s' \<Rightarrow> s')"
| "messageHandler P k i authTimeout (Authenticated session_token) s =
     resolve i True
       ((removeEventListener i (clearTimeout authTimeout s))
          \<lparr>isAuthenticated := True, sessionToken := Some session_token, error := None,
           authenticationInProgressRef := False\<rparr>)"
| "messageHandler P k i authTimeout (AuthError msg) s =
     resolve i False
       ((removeEventListener i (clearTimeout authTimeout s))
          \<lparr>error := Some (''Authentication failed: '' @ msg), isAuthenticated := False,
           authenticationInProgressRef := False\<rparr>)"
| "messageHandler P k i authTimeout Malformed s = messageHandlerCatch i authTimeout s"
| "messageHandler P k i authTimeout (PriceUpdate symbol p) s = s"
| "messageHandler P k i authTimeout (ErrorMessage msg) s = s"
| "messageHandler P k i authTimeout OtherMessage s = s"

text \<open>\<^verbatim>\<open>authenticate(ws)\<close> up to the point where it returns its promise.\<close>

definition authenticate :: "props \<Rightarrow> nat \<Rightarrow> state \<Rightarrow> bool promise \<times> state" where
  "authenticate c i s =
     (if noApiKey (apiKey c) then (Resolved True, s\<lparr>isAuthenticated := True\<rparr>)
      else if authenticationInProgressRef s then (Resolved False, s)
      else
        (let s1 = s\<lparr>authenticationInProgressRef := True\<rparr>;
             (authTimeout, s2) = setTimeout (AuthTimeoutCb i) AUTH_TIMEOUT_MS s1
         in (Pending,
             s2\<lparr>sockets := (sockets s2)[i := (sockets s2 ! i)
                   \<lparr>authListener := Some authTimeout, authPending := True\<rparr>]\<rparr>)))"

definition onopen :: "props \<Rightarrow> nat \<Rightarrow> state \<Rightarrow> state" where
  "onopen c i s =
     (let s1 = s\<lparr>isConnected := True, error := None, connectionInProgressRef := False\<rparr>;
          (authSuccess, s2) = authenticate c i s1
      in case authSuccess of
           Resolved b \<Rightarrow> onopen_resume i b s2
         | Pending \<Rightarrow> s2)"

subsection \<open>The other socket handlers (lines 232-286)\<close>

fun onmessage :: "platform \<Rightarrow> server_msg \<Rightarrow> state \<Rightarrow> state" where
  "onmessage P Malformed s = s"
| "onmessage P AuthRequired s = s"
| "onmessage P (Challenge challenge challenge_id) s = s"
| "onmessage P (Authenticated session_token) s = s"
| "onmessage P (AuthError msg) s = s"
| "onmessage P (PriceUpdate symbol p) s = setPrices P symbol p s"
| "onmessage P (ErrorMessage msg) s = s\<lparr>error := Some msg\<rparr>"
| "onmessage P OtherMessage s = s"

definition onerror :: "state \<Rightarrow> state" where
  "onerror s = s\<lparr>error := Some ''WebSocket connection error'', connectionInProgressRef := False\<rparr>"

definition onclose :: "props \<Rightarrow> nat \<Rightarrow> state \<Rightarrow> state" where
  "onclose c code s =
     (let s1 = s\<lparr>isConnected := False, isAuthenticated := False, sessionToken := None,
                 authenticationInProgressRef := False, connectionInProgressRef := False,
                 wsRef := None\<rparr>
      in if enabled c \<and> code \<noteq> 1000 then
           (let (tid, s2) = setTimeout ReconnectCb (reconnectInterval c) s1
            in s2\<lparr>reconnectTimeoutRef := Some tid\<rparr>)
         else s1)"

subsection \<open>\<^verbatim>\<open>connect\<close> (lines 180-292)\<close>

text \<open>\<^verbatim>\<open>wsRef.current && (readyState === CONNECTING || readyState === OPEN)\<close>.\<close>

definition wsLive :: "state \<Rightarrow> bool" where
  "wsLive s =
     (case wsRef s of
        None \<Rightarrow> False
      | Some i \<Rightarrow> readyState (sockets s ! i) = CONNECTING \<or> readyState (sockets s ! i) = OPEN)"

definition connect :: "platform \<Rightarrow> props \<Rightarrow> state \<Rightarrow> state" where
  "connect P c s =
     (if \<not> enabled c \<or> url c = [] then s
      else if connectionInProgressRef s \<or> wsLive s then s
      else
        (let s1 = s\<lparr>connectionInProgressRef := True\<rparr>;
             s2 = (case wsRef s1 of None \<Rightarrow> s1 | Some i \<Rightarrow> ws_close i s1)
         in if urlAccepted P (url c) then
              s2\<lparr>sockets := sockets s2 @ [newWebSocket], wsRef := Some (length (sockets s2))\<rparr>
            else
              s2\<lparr>error := Some ''Failed to create WebSocket connection'',
                 connectionInProgressRef := False\<rparr>))"

subsection \<open>\<^verbatim>\<open>subscribe\<close> and \<^verbatim>\<open>unsubscribe\<close> (lines 295-348)\<close>

definition subscribe :: "string list \<Rightarrow> state \<Rightarrow> state" where
  "subscribe symbols s =
     (if symbols = [] then s
      else
        (let newSymbols = filter (\<lambda>symbol. symbol \<notin> set (subscribedSymbolsRef s)) symbols
         in if newSymbols = [] then s
            else
              (let s1 = s\<lparr>subscribedSymbolsRef := foldl set_add (subscribedSymbolsRef s) newSymbols\<rparr>
               in case wsRef s1 of
                    None \<Rightarrow> s1
                  | Some i \<Rightarrow>
                      if readyState (sockets s1 ! i) = OPEN \<and> isAuthenticated s1 then
                        (case ws_send i (SubscribeMsg newSymbols) s1 of
                           Inl e \<Rightarrow> s1
                         | Inr s' \<Rightarrow> s')
                      else s1)))"

definition unsubscribe :: "string list \<Rightarrow> state \<Rightarrow> state" where
  "unsubscribe symbols s =
     (if symbols = [] then s
      else
        (let subscribedToRemove = filter (\<lambda>symbol. symbol \<in> set (subscribedSymbolsRef s)) symbols
         in if subscribedToRemove = [] then s
            else
              (let s1 = s\<lparr>subscribedSymbolsRef :=
                           foldl set_delete (subscribedSymbolsRef s) subscribedToRemove\<rparr>
               in case wsRef s1 of
                    None \<Rightarrow> s1
                  | Some i \<Rightarrow>
                      if readyState (sockets s1 ! i) = OPEN \<and> isAuthenticated s1 then
                        (case ws_send i (UnsubscribeMsg subscribedToRemove) s1 of
                           Inl e \<Rightarrow> s1
                         | Inr s' \<Rightarrow> s')
                      else s1)))"

text \<open>The cleanup of the mount effect (lines 354-362).\<close>

definition cleanup :: "state \<Rightarrow> state" where
  "cleanup s =
     (let s1 = (case reconnectTimeoutRef s of None \<Rightarrow> s | Some tid \<Rightarrow> clearTimeout tid s)
      in case wsRef s1 of None \<Rightarrow> s1 | Some i \<Rightarrow> ws_close i s1)"

subsection \<open>The event loop\<close>

text \<open>What can happen to the provider: its own operations, called by a consumer or by
  React, and the events the browser delivers. The browser delivers \<^verbatim>\<open>open\<close> to a
  connecting socket, \<^verbatim>\<open>message\<close> to an open socket, \<^verbatim>\<open>close\<close> to a socket that is not
  closed yet (with the close code) and fires a timer that is pending and due; an event
  that cannot happen in the state leaves it as it is.\<close>

datatype event =
    EvConnect
  | EvSubscribe "string list"
  | EvUnsubscribe "string list"
  | EvUnmount
  | EvOpen nat
  | EvMessage nat server_msg
  | EvError nat
  | EvClose nat nat
  | EvTimer nat
  | EvTick nat

definition setReadyState :: "nat \<Rightarrow> readyState \<Rightarrow> state \<Rightarrow> state" where
  "setReadyState i r s = s\<lparr>sockets := (sockets s)[i := (sockets s ! i)\<lparr>readyState := r\<rparr>]\<rparr>"

text \<open>The listeners of a \<^verbatim>\<open>message\<close> event, in the order of their registration:
  \<^verbatim>\<open>ws.onmessage\<close>, then the handshake's \<^verbatim>\<open>messageHandler\<close> while it is registered.
  \<^verbatim>\<open>authenticate\<close> registers the listener only when a credential is configured, and
  the listener's closure holds that credential.\<close>

definition dispatchMessage :: "platform \<Rightarrow> props \<Rightarrow> nat \<Rightarrow> server_msg \<Rightarrow> state \<Rightarrow> state" where
  "dispatchMessage P c i m s =
     (let s1 = onmessage P m s
      in case authListener (sockets s1 ! i) of
           None \<Rightarrow> s1
         | Some authTimeout \<Rightarrow>
             (case apiKey c of
                None \<Rightarrow> s1
              | Some k \<Rightarrow> messageHandler P k i authTimeout m s1))"

definition runTimer :: "platform \<Rightarrow> props \<Rightarrow> timer_callback \<Rightarrow> state \<Rightarrow> state" where
  "runTimer P c cb s =
     (case cb of
        AuthTimeoutCb i \<Rightarrow> authTimeoutCallback i s
      | ReconnectCb \<Rightarrow> connect P c s)"

fun step :: "platform \<Rightarrow> props \<Rightarrow> state \<Rightarrow> event \<Rightarrow> state" where
  "step P c s EvConnect = connect P c s"
| "step P c s (EvSubscribe symbols) = subscribe symbols s"
| "step P c s (EvUnsubscribe symbols) = unsubscribe symbols s"
| "step P c s EvUnmount = cleanup s"
| "step P c s (EvOpen i) =
     (if i < length (sockets s) \<and> readyState (sockets s ! i) = CONNECTING
      then onopen c i (setReadyState i OPEN s) else s)"
| "step P c s (EvMessage i m) =
     (if i < length (sockets s) \<and> readyState (sockets s ! i) = OPEN
      then dispatchMessage P c i m s else s)"
| "step P c s (EvError i) = (if i < length (sockets s) then onerror s else s)"
| "step P c s (EvClose i code) =
     (if i < length (sockets s) \<and> readyState (sockets s ! i) \<noteq> CLOSED
      then onclose c code (setReadyState i CLOSED s) else s)"
| "step P c s (EvTimer tid) =
     (case find (\<lambda>t. timerId t = tid) (timers s) of
        None \<Rightarrow> s
      | Some t \<Rightarrow>
          if due t \<le> now s then runTimer P c (callback t) (clearTimeout tid s) else s)"
| "step P c s (EvTick ms) = s\<lparr>now := now s + int ms\<rparr>"

definition run :: "platform \<Rightarrow> props \<Rightarrow> state \<Rightarrow> event list \<Rightarrow> state" where
  "run P c s es = foldl (step P c) s es"

text \<open>The state of a freshly constructed provider, before its effects run.\<close>

definition initialState :: "platform \<Rightarrow> cached \<Rightarrow> int \<Rightarrow> state" where
  "initialState P item dateNow =
     \<lparr>isConnected = False, error = None, isAuthenticated = False, sessionToken = None,
      prices = loadCachedPrices P item dateNow, wsRef = None, reconnectTimeoutRef = None,
      subscribedSymbolsRef = [], authenticationInProgressRef = False,
      connectionInProgressRef = False, sockets = [], timers = [], nextTimerId = 0,
      localStorage = item, now = dateNow\<rparr>"

subsection \<open>Observations used in the statements\<close>

text \<open>The condition under which \<^verbatim>\<open>subscribe\<close> and \<^verbatim>\<open>unsubscribe\<close> write to the
  socket: \<^verbatim>\<open>wsRef.current && wsRef.current.readyState === WebSocket.OPEN && isAuthenticated\<close>.\<close>

definition canSend :: "state \<Rightarrow> bool" where
  "canSend s =
     (case wsRef s of
        None \<Rightarrow> False
      | Some i \<Rightarrow> readyState (sockets s ! i) = OPEN \<and> isAuthenticated s)"

text \<open>\<^verbatim>\<open>wsRef.current\<close>, when set, is one of the sockets that exist.\<close>

definition wsRefValid :: "state \<Rightarrow> bool" where
  "wsRefValid s = (case wsRef s of None \<Rightarrow> True | Some i \<Rightarrow> i < length (sockets s))"

text \<open>Everything sent so far, socket by socket.\<close>

definition wire :: "state \<Rightarrow> client_msg list list" where
  "wire s = map outbox (sockets s)"

fun isSubscribeMsg :: "client_msg \<Rightarrow> bool" where
  "isSubscribeMsg (SubscribeMsg symbols) = True"
| "isSubscribeMsg m = False"

fun isAuthMsg :: "client_msg \<Rightarrow> bool" where
  "isAuthMsg (RequestChallenge k) = True"
| "isAuthMsg (ChallengeResponse challenge_id signature k) = True"
| "isAuthMsg m = False"

text \<open>The number of subscribe messages sent so far, on all sockets.\<close>

definition subscribeCount :: "state \<Rightarrow> nat" where
  "subscribeCount s = length (filter isSubscribeMsg (concat (wire s)))"

text \<open>The sockets that are connecting or open.\<close>

definition liveTransports :: "state \<Rightarrow> transport list" where
  "liveTransports s =
     filter (\<lambda>t. readyState t = CONNECTING \<or> readyState t = OPEN) (sockets s)"

text \<open>The resync message for the current set: one subscribe message with the whole
  set, or nothing when the set is empty.\<close>

definition fullResync :: "state \<Rightarrow> client_msg list" where
  "fullResync s =
     (if subscribedSymbolsRef s = [] then [] else [SubscribeMsg (subscribedSymbolsRef s)])"

text \<open>The events that are calls of \<^verbatim>\<open>subscribe\<close> or \<^verbatim>\<open>unsubscribe\<close>.\<close>

fun isSubOp :: "event \<Rightarrow> bool" where
  "isSubOp (EvSubscribe symbols) = True"
| "isSubOp (EvUnsubscribe symbols) = True"
| "isSubOp e = False"

text \<open>The values that \<^verbatim>\<open>JSON.stringify\<close> writes in full: those without an infinite
  number and without \<open>-0\<close>. A price map is kept whole when each of its prices is such a
  value; a map of finite prices is.\<close>

fun lossless :: "json \<Rightarrow> bool" where
  "lossless JInfinity = False"
| "lossless JNegInfinity = False"
| "lossless JNegZero = False"
| "lossless (JArray vs) = list_all lossless vs"
| "lossless (JObject kvs) = list_all lossless (map snd kvs)"
| "lossless JNull = True"
| "lossless (JBool b) = True"
| "lossless (JNumber r) = True"
| "lossless (JString t) = True"

fun keptWhole :: "string \<times> price \<Rightarrow> bool" where
  "keptWhole (k, None) = False"
| "keptWhole (k, Some v) = lossless v"

text \<open>Timer ids are handed out in increasing order: every pending timer has an id below
  the next one.\<close>

definition timersFresh :: "state \<Rightarrow> bool" where
  "timersFresh s = list_all (\<lambda>t. timerId t < nextTimerId s) (timers s)"

text \<open>What every reachable state satisfies.\<close>

definition wellFormed :: "state \<Rightarrow> bool" where
  "wellFormed s = (wsRefValid s \<and> timersFresh s)"

text \<open>\<open>s'\<close> has the sockets, the \<^verbatim>\<open>wsRef\<close> and the timer counter of \<open>s\<close>, and no
  timer that \<open>s\<close> has not.\<close>

definition sameShape :: "state \<Rightarrow> state \<Rightarrow> bool" where
  "sameShape s s' =
     (length (sockets s') = length (sockets s) \<and> wsRef s' = wsRef s \<and>
      set (timers s') \<subseteq> set (timers s) \<and> nextTimerId s' = nextTimerId s)"

text \<open>A socket on which no handshake listener is registered and no authentication
  message has been sent; a state in which every socket is so.\<close>

definition quiet :: "transport \<Rightarrow> bool" where
  "quiet t = (authListener t = None \<and> \<not> list_ex isAuthMsg (outbox t))"

definition noAuthTraffic :: "state \<Rightarrow> bool" where
  "noAuthTraffic s = list_all quiet (sockets s)"

text \<open>The inbound messages that do not end a handshake with the server's verdict.\<close>

fun notTerminal :: "server_msg \<Rightarrow> bool" where
  "notTerminal (Authenticated session_token) = False"
| "notTerminal (AuthError msg) = False"
| "notTerminal m = True"

text \<open>A handshake is pending on socket \<open>i\<close> with timer \<open>tid\<close> and deadline
  \<open>deadline\<close>: the socket is open, the listener is registered, the promise is not
  settled, the guard is set and the timer, of 10000 ms, is pending with that deadline.\<close>

definition awaitingUntil :: "nat \<Rightarrow> nat \<Rightarrow> int \<Rightarrow> state \<Rightarrow> bool" where
  "awaitingUntil i tid deadline s =
     (i < length (sockets s) \<and> readyState (sockets s ! i) = OPEN \<and>
      authListener (sockets s ! i) = Some tid \<and> authPending (sockets s ! i) \<and>
      authenticationInProgressRef s \<and>
      find (\<lambda>t. timerId t = tid) (timers s) =
        Some \<lparr>timerId = tid, delay = 10000, due = deadline, callback = AuthTimeoutCb i\<rparr>)"

text \<open>The events that leave a pending handshake on socket \<open>i\<close> to itself: time passing,
  a frame on the socket that is neither \<^verbatim>\<open>authenticated\<close> nor \<^verbatim>\<open>auth_error\<close>, and the
  consumers' calls of \<^verbatim>\<open>subscribe\<close> and \<^verbatim>\<open>unsubscribe\<close>.\<close>

fun handshakeNeutral :: "nat \<Rightarrow> event \<Rightarrow> bool" where
  "handshakeNeutral i (EvTick ms) = True"
| "handshakeNeutral i (EvMessage j m) = (j = i \<and> notTerminal m)"
| "handshakeNeutral i (EvSubscribe symbols) = True"
| "handshakeNeutral i (EvUnsubscribe symbols) = True"
| "handshakeNeutral i e = False"

text \<open>The time that passes in a list of events, in milliseconds.\<close>

fun elapsed :: "event list \<Rightarrow> nat" where
  "elapsed [] = 0"
| "elapsed (EvTick ms # es) = ms + elapsed es"
| "elapsed (e # es) = elapsed es"

text \<open>\<open>s'\<close> differs from \<open>s\<close> in nothing that a handshake reads.\<close>

definition sameHandshake :: "state \<Rightarrow> state \<Rightarrow> bool" where
  "sameHandshake s s' =
     (map readyState (sockets s') = map readyState (sockets s) \<and>
      map authListener (sockets s') = map authListener (sockets s) \<and>
      map authPending (sockets s') = map authPending (sockets s) \<and>
      timers s' = timers s \<and> now s' = now s \<and> error s' = error s \<and>
      authenticationInProgressRef s' = authenticationInProgressRef s)"

text \<open>The handshake on socket \<open>i\<close> was ended by the \<^verbatim>\<open>catch\<close> block.\<close>

definition failedEarly :: "nat \<Rightarrow> nat \<Rightarrow> state \<Rightarrow> bool" where
  "failedEarly i tid s =
     (i < length (sockets s) \<and> readyState (sockets s ! i) = CLOSING \<and>
      \<not> authPending (sockets s ! i) \<and> \<not> authenticationInProgressRef s \<and>
      error s = Some ''Authentication error'' \<and>
      find (\<lambda>t. timerId t = tid) (timers s) = None)"

subsection \<open>SHA-256 (FIPS 180-4), the digest of the browser used in the concrete runs\<close>

unbundle bit_operations_syntax

type_synonym w32 = nat

definition sha256_K :: "w32 list" where
  "sha256_K =
    [
     0x428A2F98, 0x71374491, 0xB5C0FBCF, 0xE9B5DBA5, 0x3956C25B, 0x59F111F1,
     0x923F82A4, 0xAB1C5ED5, 0xD807AA98, 0x12835B01, 0x243185BE, 0x550C7DC3,
     0x72BE5D74, 0x80DEB1FE, 0x9BDC06A7, 0xC19BF174, 0xE49B69C1, 0xEFBE4786,
     0x0FC19DC6, 0x240CA1CC, 0x2DE92C6F, 0x4A7484AA, 0x5CB0A9DC, 0x76F988DA,
     0x983E5152, 0xA831C66D, 0xB00327C8, 0xBF597FC7, 0xC6E00BF3, 0xD5A79147,
     0x06CA6351, 0x14292967, 0x27B70A85, 0x2E1B2138, 0x4D2C6DFC, 0x53380D13,
     0x650A7354, 0x766A0ABB, 0x81C2C92E, 0x92722C85, 0xA2BFE8A1, 0xA81A664B,
     0xC24B8B70, 0xC76C51A3, 0xD192E819, 0xD6990624, 0xF40E3585, 0x106AA070,
     0x19A4C116, 0x1E376C08, 0x2748774C, 0x34B0BCB5, 0x391C0CB3, 0x4ED8AA4A,
     0x5B9CCA4F, 0x682E6FF3, 0x748F82EE, 0x78A5636F, 0x84C87814, 0x8CC70208,
     0x90BEFFFA, 0xA4506CEB, 0xBEF9A3F7, 0xC67178F2]"

definition sha256_H0 :: "w32 list" where
  "sha256_H0 =
    [
     0x6A09E667, 0xBB67AE85, 0x3C6EF372, 0xA54FF53A,
     0x510E527F, 0x9B05688C, 0x1F83D9AB, 0x5BE0CD19]"

text \<open>32-bit words are natural numbers below \<open>2^32\<close>; addition wraps.\<close>

definition add32 :: "w32 \<Rightarrow> w32 \<Rightarrow> w32" where
  "add32 x y = (x + y) mod 4294967296"

definition rotr :: "nat \<Rightarrow> w32 \<Rightarrow> w32" where
  "rotr n x = x div 2 ^ n + (x mod 2 ^ n) * 2 ^ (32 - n)"

definition not32 :: "w32 \<Rightarrow> w32" where
  "not32 x = 4294967295 - x"

definition Ch :: "w32 \<Rightarrow> w32 \<Rightarrow> w32 \<Rightarrow> w32" where
  "Ch x y z = (x AND y) XOR (not32 x AND z)"

definition Maj :: "w32 \<Rightarrow> w32 \<Rightarrow> w32 \<Rightarrow> w32" where
  "Maj x y z = (x AND y) XOR (x AND z) XOR (y AND z)"

definition Sigma0 :: "w32 \<Rightarrow> w32" where
  "Sigma0 x = rotr 2 x XOR rotr 13 x XOR rotr 22 x"

definition Sigma1 :: "w32 \<Rightarrow> w32" where
  "Sigma1 x = rotr 6 x XOR rotr 11 x XOR rotr 25 x"

definition sigma0 :: "w32 \<Rightarrow> w32" where
  "sigma0 x = rotr 7 x XOR rotr 18 x XOR x div 2 ^ 3"

definition sigma1 :: "w32 \<Rightarrow> w32" where
  "sigma1 x = rotr 17 x XOR rotr 19 x XOR x div 2 ^ 10"

definition be64 :: "nat \<Rightarrow> nat list" where
  "be64 n = map (\<lambda>i. (n div 256 ^ i) mod 256) [7, 6, 5, 4, 3, 2, 1, 0]"

text \<open>Padding: the bit \<open>1\<close>, zeros up to 56 modulo 64 bytes, the bit length in 8 bytes.\<close>

definition sha256_pad :: "nat list \<Rightarrow> nat list" where
  "sha256_pad bs =
     bs @ [128] @ replicate ((64 - (length bs + 9) mod 64) mod 64) 0 @ be64 (8 * length bs)"

fun be_words :: "nat list \<Rightarrow> w32 list" where
  "be_words (a # b # c # d # rest) = (((a * 256 + b) * 256 + c) * 256 + d) # be_words rest"
| "be_words bs = []"

fun blocks :: "nat \<Rightarrow> 'a list \<Rightarrow> 'a list list" where
  "blocks n [] = []"
| "blocks n xs = (if n = 0 then [xs] else take n xs # blocks n (drop n xs))"

text \<open>The message schedule: \<open>schedule 48\<close> extends the 16 words of a block to 64.\<close>

fun schedule :: "nat \<Rightarrow> w32 list \<Rightarrow> w32 list" where
  "schedule 0 ws = ws"
| "schedule (Suc n) ws =
     schedule n (ws @ [add32 (add32 (sigma1 (ws ! (length ws - 2))) (ws ! (length ws - 7)))
                         (add32 (sigma0 (ws ! (length ws - 15))) (ws ! (length ws - 16)))])"

fun round :: "w32 list \<Rightarrow> w32 \<times> w32 \<Rightarrow> w32 list" where
  "round [a, b, c, d, e, f, g, h] (k, w) =
     (let t1 = add32 (add32 (add32 h (Sigma1 e)) (add32 (Ch e f g) k)) w;
          t2 = add32 (Sigma0 a) (Maj a b c)
      in [add32 t1 t2, a, b, c, add32 d t1, e, f, g])"
| "round st kw = st"

definition compress :: "w32 list \<Rightarrow> w32 list \<Rightarrow> w32 list" where
  "compress hs block = map2 add32 hs (foldl round hs (zip sha256_K (schedule 48 block)))"

definition word_bytes :: "w32 \<Rightarrow> nat list" where
  "word_bytes w = map (\<lambda>i. (w div 256 ^ i) mod 256) [3, 2, 1, 0]"

definition SHA256 :: "nat list \<Rightarrow> nat list" where
  "SHA256 bs = concat (map word_bytes (foldl compress sha256_H0 (blocks 16 (be_words (sha256_pad bs)))))"

subsection \<open>A browser and two configurations for the concrete runs\<close>

definition demoPlatform :: platform where
  "demoPlatform = \<lparr>hasWindow = True, digest = SHA256,
                    urlAccepted = (\<lambda>u. True), setItemThrows = (\<lambda>item. False)\<rparr>"

text \<open>The same browser with a storage that refuses every write.\<close>

definition fullStoragePlatform :: platform where
  "fullStoragePlatform = demoPlatform\<lparr>setItemThrows := (\<lambda>item. True)\<rparr>"

definition demoProps :: props where
  "demoProps = \<lparr>url = ''wss://feed'', apiKey = None, enabled = True, reconnectInterval = 5000\<rparr>"

definition keyedProps :: props where
  "keyedProps = demoProps\<lparr>apiKey := Some ''key''\<rparr>"

section \<open>Properties\<close>

lemmas handler_defs =
  connect_def wsLive_def ws_close_def close_def newWebSocket_def onopen_def authenticate_def
  onopen_resume_def ws_send_def send_def setTimeout_def clearTimeout_def onclose_def
  onerror_def subscribe_def unsubscribe_def set_add_def set_delete_def setReadyState_def
  dispatchMessage_def runTimer_def resolve_def removeEventListener_def
  authTimeoutCallback_def messageHandlerCatch_def setPrices_def persistPrices_def
  cleanup_def run_def initialState_def loadCachedPrices_def AUTH_TIMEOUT_MS_def
  PRICE_CACHE_EXPIRY_MS_def

lemmas demo_defs = demoPlatform_def fullStoragePlatform_def demoProps_def keyedProps_def

subsection \<open>Reachable states\<close>

lemma run_Nil: "run P c s [] = s"
  by (simp add: run_def)

lemma run_Cons: "run P c s (e # es) = run P c (step P c s e) es"
  by (simp add: run_def)

lemma run_append: "run P c s (xs @ ys) = run P c (run P c s xs) ys"
  by (simp add: run_def)

lemma sameShape_refl: "sameShape s s"
  by (simp add: sameShape_def)

lemma sameShape_trans: "sameShape s s' \<Longrightarrow> sameShape s' s'' \<Longrightarrow> sameShape s s''"
  by (auto simp: sameShape_def)

lemma sameShape_wellFormed: "sameShape s s' \<Longrightarrow> wellFormed s \<Longrightarrow> wellFormed s'"
  by (auto simp: sameShape_def wellFormed_def wsRefValid_def timersFresh_def list_all_iff
      split: option.splits)

lemma shape_ws_send: "ws_send i m s = Inr s' \<Longrightarrow> sameShape s s'"
  by (auto simp: ws_send_def sameShape_def split: sum.splits)

lemma shape_ws_close: "sameShape s (ws_close i s)"
  by (simp add: ws_close_def sameShape_def)

lemma shape_onopen_resume: "sameShape s (onopen_resume i b s)"
  by (auto simp: onopen_resume_def shape_ws_close sameShape_refl shape_ws_send split: sum.splits)

lemma shape_resolve: "sameShape s (resolve i b s)"
proof -
  have "sameShape s (s\<lparr>sockets := (sockets s)[i := (sockets s ! i)\<lparr>authPending := False\<rparr>]\<rparr>)"
    by (simp add: sameShape_def)
  then show ?thesis
    by (auto simp: resolve_def sameShape_refl intro: sameShape_trans shape_onopen_resume)
qed

lemma shape_subscribe: "sameShape s (subscribe S s)"
proof -
  have "sameShape s (s\<lparr>subscribedSymbolsRef := xs\<rparr>)" for xs
    by (simp add: sameShape_def)
  then show ?thesis
    by (auto simp: subscribe_def Let_def sameShape_refl split: option.splits sum.splits
        intro: sameShape_trans shape_ws_send)
qed

lemma shape_unsubscribe: "sameShape s (unsubscribe S s)"
proof -
  have "sameShape s (s\<lparr>subscribedSymbolsRef := xs\<rparr>)" for xs
    by (simp add: sameShape_def)
  then show ?thesis
    by (auto simp: unsubscribe_def Let_def sameShape_refl split: option.splits sum.splits
        intro: sameShape_trans shape_ws_send)
qed

lemma shape_onmessage: "sameShape s (onmessage P m s)"
  by (cases m) (auto simp: sameShape_def setPrices_def persistPrices_def Let_def)

lemma shape_clearTimeout: "sameShape s (clearTimeout tid s)"
  by (auto simp: sameShape_def clearTimeout_def)

lemma shape_settle:
  assumes "length (sockets s') = length (sockets s)" "wsRef s' = wsRef s"
    "set (timers s') \<subseteq> set (timers s)" "nextTimerId s' = nextTimerId s"
  shows "sameShape s (resolve i b s')"
proof -
  from assms have "sameShape s s'" by (simp add: sameShape_def)
  then show ?thesis using shape_resolve by (rule sameShape_trans)
qed

lemma shape_messageHandlerCatch: "sameShape s (messageHandlerCatch i tid s)"
  unfolding messageHandlerCatch_def
  by (rule shape_settle) (auto simp: removeEventListener_def clearTimeout_def)

lemma shape_messageHandler: "sameShape s (messageHandler P k i tid m s)"
proof (cases m)
  case AuthRequired
  then show ?thesis
    by (auto simp: shape_messageHandlerCatch shape_ws_send split: sum.splits)
next
  case (Challenge ch cid)
  then show ?thesis
    by (auto simp: shape_messageHandlerCatch shape_ws_send split: sum.splits)
next
  case (Authenticated tok)
  show ?thesis
    unfolding Authenticated messageHandler.simps
    by (rule shape_settle) (auto simp: removeEventListener_def clearTimeout_def)
next
  case (AuthError msg)
  show ?thesis
    unfolding AuthError messageHandler.simps
    by (rule shape_settle) (auto simp: removeEventListener_def clearTimeout_def)
qed (simp_all add: sameShape_refl shape_messageHandlerCatch)

lemma shape_dispatch: "sameShape s (dispatchMessage P c i m s)"
  using shape_onmessage [of s P m]
  by (auto simp: dispatchMessage_def Let_def simp del: messageHandler.simps
      split: option.splits intro: sameShape_trans shape_messageHandler)

lemma shape_cleanup: "sameShape s (cleanup s)"
  by (auto simp: cleanup_def Let_def sameShape_refl shape_ws_close shape_clearTimeout
      split: option.splits intro: sameShape_trans [OF shape_clearTimeout shape_ws_close])

lemma shape_authTimeoutCallback: "sameShape s (authTimeoutCallback i s)"
  unfolding authTimeoutCallback_def by (rule shape_settle) simp_all

lemma wellFormed_connect: "wellFormed s \<Longrightarrow> wellFormed (connect P c s)"
  by (auto simp: connect_def Let_def ws_close_def wellFormed_def wsRefValid_def timersFresh_def
      split: option.splits)

lemma wellFormed_onclose: "wellFormed s \<Longrightarrow> wellFormed (onclose c code s)"
  by (auto simp: onclose_def setTimeout_def Let_def wellFormed_def wsRefValid_def
      timersFresh_def list_all_iff)

lemma wellFormed_onopen:
  assumes "wellFormed s"
  shows "wellFormed (onopen c i s)"
proof -
  define s1 where "s1 = s\<lparr>isConnected := True, error := None, connectionInProgressRef := False\<rparr>"
  have "wellFormed s1"
    using assms
    by (auto simp: s1_def wellFormed_def wsRefValid_def timersFresh_def split: option.splits)
  then have i2: "wellFormed (snd (authenticate c i s1))"
    by (auto simp: authenticate_def setTimeout_def Let_def wellFormed_def wsRefValid_def
        timersFresh_def list_all_iff split: option.splits)
  then have "wellFormed (onopen_resume i b (snd (authenticate c i s1)))" for b
    using shape_onopen_resume sameShape_wellFormed by blast
  with i2 show ?thesis
    by (auto simp: onopen_def Let_def s1_def [symmetric] split: prod.splits promise.splits)
qed

lemma wellFormed_runTimer: "wellFormed s \<Longrightarrow> wellFormed (runTimer P c cb s)"
  by (cases cb)
    (auto simp: runTimer_def wellFormed_connect
      intro: sameShape_wellFormed [OF shape_authTimeoutCallback])

lemma wellFormed_step:
  assumes "wellFormed s"
  shows "wellFormed (step P c s e)"
proof (cases e)
  case (EvOpen i)
  have "wellFormed (setReadyState i OPEN s)"
    using assms
    by (auto simp: setReadyState_def wellFormed_def wsRefValid_def timersFresh_def
        split: option.splits)
  then show ?thesis
    using assms by (simp add: EvOpen wellFormed_onopen)
next
  case (EvClose i code)
  have "wellFormed (setReadyState i CLOSED s)"
    using assms
    by (auto simp: setReadyState_def wellFormed_def wsRefValid_def timersFresh_def
        split: option.splits)
  then show ?thesis
    using assms by (simp add: EvClose wellFormed_onclose)
next
  case (EvTimer tid)
  have "wellFormed (clearTimeout tid s)"
    using shape_clearTimeout assms by (rule sameShape_wellFormed)
  then show ?thesis
    using assms by (auto simp: EvTimer wellFormed_runTimer split: option.splits)
next
  case (EvTick ms)
  then show ?thesis
    using assms
    by (auto simp: wellFormed_def wsRefValid_def timersFresh_def split: option.splits)
next
  case (EvError i)
  then show ?thesis
    using assms
    by (auto simp: onerror_def wellFormed_def wsRefValid_def timersFresh_def split: option.splits)
next
  case (EvMessage i m)
  then show ?thesis
    using assms sameShape_wellFormed [OF shape_dispatch] by simp
next
  case EvConnect
  then show ?thesis using assms by (simp add: wellFormed_connect)
next
  case (EvSubscribe S)
  then show ?thesis using assms sameShape_wellFormed [OF shape_subscribe] by simp
next
  case (EvUnsubscribe S)
  then show ?thesis using assms sameShape_wellFormed [OF shape_unsubscribe] by simp
next
  case EvUnmount
  then show ?thesis using assms sameShape_wellFormed [OF shape_cleanup] by simp
qed

lemma wellFormed_run: "wellFormed s \<Longrightarrow> wellFormed (run P c s es)"
  by (induction es arbitrary: s) (simp_all add: run_Nil run_Cons wellFormed_step del: step.simps)

lemma reachable_wellFormed: "wellFormed (run P c (initialState P item dateNow) es)"
  by (rule wellFormed_run)
    (simp add: wellFormed_def wsRefValid_def timersFresh_def initialState_def)


subsection \<open>The guard of \<^verbatim>\<open>connect\<close>\<close>

text \<open>
  What the guard does: \<^verbatim>\<open>connect()\<close> returns the state it was given, and so creates
  no socket, when the client is disabled, the URL is empty, \<^verbatim>\<open>connectionInProgressRef\<close>
  is set or the socket of \<^verbatim>\<open>wsRef\<close> is connecting or open. Two calls in a row give exactly
  one live socket when the first call opens the connection (no socket was live, the guard
  was clear and the URL is accepted) and when the only live socket is the one of
  \<^verbatim>\<open>wsRef\<close>. The guard reads \<^verbatim>\<open>wsRef\<close> only: a live socket that \<^verbatim>\<open>wsRef\<close> no longer
  holds does not stop \<^verbatim>\<open>connect\<close>, as shown at the end of this subsection.
\<close>

lemma connect_guard:
  "(\<not> enabled c \<or> url c = [] \<or> connectionInProgressRef s \<or> wsLive s \<longrightarrow> connect P c s = s) \<and>
   (wsRefValid s \<and> enabled c \<and> url c \<noteq> [] \<and> urlAccepted P (url c) \<and>
      \<not> connectionInProgressRef s \<and> liveTransports s = [] \<longrightarrow>
      length (liveTransports (connect P c (connect P c s))) = 1) \<and>
   (wsLive s \<and> length (liveTransports s) = 1 \<longrightarrow>
      length (liveTransports (connect P c (connect P c s))) = 1)"
proof (intro conjI impI)
  assume "\<not> enabled c \<or> url c = [] \<or> connectionInProgressRef s \<or> wsLive s"
  then show "connect P c s = s"
    by (auto simp: connect_def)
next
  assume "wsRefValid s \<and> enabled c \<and> url c \<noteq> [] \<and> urlAccepted P (url c) \<and>
    \<not> connectionInProgressRef s \<and> liveTransports s = []"
  then show "length (liveTransports (connect P c (connect P c s))) = 1"
    by (auto simp: connect_def Let_def wsLive_def ws_close_def close_def wsRefValid_def
        liveTransports_def newWebSocket_def filter_empty_conv
        split: option.splits readyState.splits)
next
  assume "wsLive s \<and> length (liveTransports s) = 1"
  then show "length (liveTransports (connect P c (connect P c s))) = 1"
    by (auto simp: connect_def)
qed

text \<open>\<^verbatim>\<open>connect\<close> called twice in a row on a fresh provider, and a third time once
  the socket is open.\<close>

lemma connect_guard_example:
  "wsRefValid (initialState demoPlatform NoItem 0) \<and>
   liveTransports (initialState demoPlatform NoItem 0) = [] \<and>
   length (liveTransports (run demoPlatform demoProps (initialState demoPlatform NoItem 0)
     [EvConnect, EvConnect])) = 1 \<and>
   connectionInProgressRef (run demoPlatform demoProps (initialState demoPlatform NoItem 0)
     [EvConnect]) \<and>
   run demoPlatform demoProps (initialState demoPlatform NoItem 0) [EvConnect, EvConnect] =
     run demoPlatform demoProps (initialState demoPlatform NoItem 0) [EvConnect] \<and>
   wsLive (run demoPlatform demoProps (initialState demoPlatform NoItem 0) [EvConnect, EvOpen 0]) \<and>
   run demoPlatform demoProps (initialState demoPlatform NoItem 0) [EvConnect, EvOpen 0, EvConnect] =
     run demoPlatform demoProps (initialState demoPlatform NoItem 0) [EvConnect, EvOpen 0]"
  using connect_guard [of demoProps "initialState demoPlatform NoItem 0" demoPlatform]
    connect_guard [of demoProps
      "run demoPlatform demoProps (initialState demoPlatform NoItem 0) [EvConnect]" demoPlatform]
    connect_guard [of demoProps
      "run demoPlatform demoProps (initialState demoPlatform NoItem 0) [EvConnect, EvOpen 0]"
      demoPlatform]
  by (simp add: handler_defs demo_defs wsRefValid_def liveTransports_def Let_def)

text \<open>
  Claim C3 does not hold of the code. The close handler of every socket sets
  \<^verbatim>\<open>wsRef.current = null\<close> and clears \<^verbatim>\<open>connectionInProgressRef\<close> (lines 276 and 277),
  also when \<^verbatim>\<open>wsRef\<close> holds a newer socket by then. A socket is closing after the effect's
  cleanup, or after a failed authentication; \<^verbatim>\<open>connect()\<close> then creates a second socket,
  and the \<^verbatim>\<open>close\<close> event of the first one arrives while the second is connecting. In
  the state reached, one transport is connecting, \<^verbatim>\<open>wsRef\<close> is null and the guard is
  clear: \<^verbatim>\<open>connect()\<close> is not a no-op there, it creates another socket, and two calls in
  a row leave two live transports. The first run has no credential (connect, open,
  cleanup of the effect, connect, close of the first socket with code 1000), the second
  has one (connect, open, \<^verbatim>\<open>auth_error\<close>, connect, close of the first socket with code
  1006).
\<close>

theorem connect_duplicate_transport:
  "map readyState (sockets (run demoPlatform demoProps (initialState demoPlatform NoItem 0)
      [EvConnect, EvOpen 0, EvUnmount, EvConnect, EvClose 0 1000])) = [CLOSED, CONNECTING] \<and>
   wsRef (run demoPlatform demoProps (initialState demoPlatform NoItem 0)
      [EvConnect, EvOpen 0, EvUnmount, EvConnect, EvClose 0 1000]) = None \<and>
   \<not> connectionInProgressRef (run demoPlatform demoProps (initialState demoPlatform NoItem 0)
      [EvConnect, EvOpen 0, EvUnmount, EvConnect, EvClose 0 1000]) \<and>
   length (liveTransports (run demoPlatform demoProps (initialState demoPlatform NoItem 0)
      [EvConnect, EvOpen 0, EvUnmount, EvConnect, EvClose 0 1000])) = 1 \<and>
   run demoPlatform demoProps (initialState demoPlatform NoItem 0)
      [EvConnect, EvOpen 0, EvUnmount, EvConnect, EvClose 0 1000, EvConnect] \<noteq>
     run demoPlatform demoProps (initialState demoPlatform NoItem 0)
      [EvConnect, EvOpen 0, EvUnmount, EvConnect, EvClose 0 1000] \<and>
   map readyState (sockets (run demoPlatform demoProps (initialState demoPlatform NoItem 0)
      [EvConnect, EvOpen 0, EvUnmount, EvConnect, EvClose 0 1000, EvConnect, EvConnect])) =
     [CLOSED, CONNECTING, CONNECTING] \<and>
   length (liveTransports (run demoPlatform demoProps (initialState demoPlatform NoItem 0)
      [EvConnect, EvOpen 0, EvUnmount, EvConnect, EvClose 0 1000, EvConnect, EvConnect])) = 2 \<and>
   map readyState (sockets (run demoPlatform keyedProps (initialState demoPlatform NoItem 0)
      [EvConnect, EvOpen 0, EvMessage 0 (AuthError ''bad''), EvConnect, EvClose 0 1006])) =
     [CLOSED, CONNECTING] \<and>
   wsRef (run demoPlatform keyedProps (initialState demoPlatform NoItem 0)
      [EvConnect, EvOpen 0, EvMessage 0 (AuthError ''bad''), EvConnect, EvClose 0 1006]) = None \<and>
   \<not> connectionInProgressRef (run demoPlatform keyedProps (initialState demoPlatform NoItem 0)
      [EvConnect, EvOpen 0, EvMessage 0 (AuthError ''bad''), EvConnect, EvClose 0 1006]) \<and>
   length (liveTransports (run demoPlatform keyedProps (initialState demoPlatform NoItem 0)
      [EvConnect, EvOpen 0, EvMessage 0 (AuthError ''bad''), EvConnect, EvClose 0 1006,
       EvConnect, EvConnect])) = 2"
  by (simp add: handler_defs demo_defs liveTransports_def Let_def)

subsection \<open>The close handler\<close>

text \<open>
  Claim C7. When the browser delivers \<^verbatim>\<open>close\<close> to a socket, \<^verbatim>\<open>isConnected\<close> and
  \<^verbatim>\<open>isAuthenticated\<close> become false and the session token is dropped, whatever the
  close code. With code 1000 no timer is added. With any other code and the client
  enabled, exactly one timer is added: it is due after \<^verbatim>\<open>reconnectInterval\<close>, its id
  is kept in \<^verbatim>\<open>reconnectTimeoutRef\<close>, and what it runs is \<^verbatim>\<open>connect\<close>.
\<close>

theorem close_event:
  "i < length (sockets s) \<and> readyState (sockets s ! i) \<noteq> CLOSED \<longrightarrow>
     \<not> isConnected (step P c s (EvClose i code)) \<and>
     \<not> isAuthenticated (step P c s (EvClose i code)) \<and>
     sessionToken (step P c s (EvClose i code)) = None \<and>
     (code = 1000 \<longrightarrow> timers (step P c s (EvClose i code)) = timers s) \<and>
     (code \<noteq> 1000 \<and> enabled c \<longrightarrow>
        timers (step P c s (EvClose i code)) =
          timers s @ [\<lparr>timerId = nextTimerId s, delay = reconnectInterval c,
                       due = now s + int (reconnectInterval c), callback = ReconnectCb\<rparr>] \<and>
        reconnectTimeoutRef (step P c s (EvClose i code)) = Some (nextTimerId s) \<and>
        runTimer P c ReconnectCb = connect P c)"
  by (auto simp: onclose_def setTimeout_def setReadyState_def runTimer_def Let_def
      split: prod.splits)

text \<open>An open socket closed abnormally (1006) and one closed normally (1000).\<close>

theorem close_event_witness:
  "0 < length (sockets (run demoPlatform demoProps (initialState demoPlatform NoItem 0)
         [EvConnect, EvOpen 0])) \<and>
   readyState (sockets (run demoPlatform demoProps (initialState demoPlatform NoItem 0)
         [EvConnect, EvOpen 0]) ! 0) = OPEN \<and>
   isAuthenticated (run demoPlatform demoProps (initialState demoPlatform NoItem 0)
         [EvConnect, EvOpen 0]) \<and>
   \<not> isAuthenticated (run demoPlatform demoProps (initialState demoPlatform NoItem 0)
         [EvConnect, EvOpen 0, EvClose 0 1006]) \<and>
   timers (run demoPlatform demoProps (initialState demoPlatform NoItem 0)
         [EvConnect, EvOpen 0, EvClose 0 1006]) =
     [\<lparr>timerId = 0, delay = 5000, due = 5000, callback = ReconnectCb\<rparr>] \<and>
   timers (run demoPlatform demoProps (initialState demoPlatform NoItem 0)
         [EvConnect, EvOpen 0, EvClose 0 1000]) = []"
  using close_event [of 0 "run demoPlatform demoProps (initialState demoPlatform NoItem 0)
         [EvConnect, EvOpen 0]" demoPlatform demoProps 1006]
    close_event [of 0 "run demoPlatform demoProps (initialState demoPlatform NoItem 0)
         [EvConnect, EvOpen 0]" demoPlatform demoProps 1000]
  by (simp add: handler_defs demo_defs Let_def)

subsection \<open>Loading the cache\<close>

text \<open>
  Claim C8. The initial price map of a provider constructed at time \<open>dateNow\<close> in a
  browser: a stored snapshot whose age \<open>dateNow - t\<close> is below 24 hours (86400000 ms)
  is adopted as it is; an older one gives the empty map; no item, or an item that does
  not parse, gives the empty map as well.
\<close>

theorem cache_load:
  "(hasWindow P \<and> dateNow - t < 86400000 \<longrightarrow>
      prices (initialState P (Snapshot (Some d) (Some t)) dateNow) = d) \<and>
   (86400000 \<le> dateNow - t \<longrightarrow>
      prices (initialState P (Snapshot (Some d) (Some t)) dateNow) = []) \<and>
   prices (initialState P NoItem dateNow) = [] \<and>
   prices (initialState P Unparsable dateNow) = []"
  by (simp add: initialState_def loadCachedPrices_def PRICE_CACHE_EXPIRY_MS_def)

text \<open>A snapshot saved at time 1000, read one millisecond before and exactly at its
  expiry.\<close>

theorem cache_load_witness:
  "hasWindow demoPlatform \<and>
   prices (initialState demoPlatform (Snapshot (Some [(''NIFTY'', Some (JNumber 101.5)), (''BANKNIFTY'', Some (JNumber 7))])
       (Some 1000)) 86400999) = [(''NIFTY'', Some (JNumber 101.5)), (''BANKNIFTY'', Some (JNumber 7))] \<and>
   prices (initialState demoPlatform (Snapshot (Some [(''NIFTY'', Some (JNumber 101.5)), (''BANKNIFTY'', Some (JNumber 7))])
       (Some 1000)) 86401000) = []"
  using cache_load [of demoPlatform 86400999 1000 "[(''NIFTY'', Some (JNumber 101.5)), (''BANKNIFTY'', Some (JNumber 7))]"]
    cache_load [of demoPlatform 86401000 1000 "[(''NIFTY'', Some (JNumber 101.5)), (''BANKNIFTY'', Some (JNumber 7))]"]
  by (simp add: demo_defs)

subsection \<open>\<^verbatim>\<open>subscribe\<close> and \<^verbatim>\<open>unsubscribe\<close>\<close>

lemma set_foldl_set_add: "set (foldl set_add xs ys) = set xs \<union> set ys"
  by (induction ys arbitrary: xs) (auto simp: set_add_def)

lemma foldl_set_delete: "foldl set_delete xs ys = filter (\<lambda>x. x \<notin> set ys) xs"
  by (induction ys arbitrary: xs) (auto simp: set_delete_def conj_commute)

lemma count_concat_update:
  "i < length xss \<Longrightarrow>
   length (filter Q (concat (xss[i := xss ! i @ ms]))) =
   length (filter Q (concat xss)) + length (filter Q ms)"
  by (induction xss arbitrary: i) (auto simp: nth_Cons' list_update_code split: nat.splits)

lemma map_update_same: "(map f xs)[i := f (xs ! i)] = map f xs"
  by (metis list_update_id map_update)

lemma wire_update:
  "wire (s\<lparr>sockets := (sockets s)[i := t]\<rparr>) = (wire s)[i := outbox t]"
  by (simp add: wire_def map_update)

lemma ws_send_symbols:
  "ws_send i m s = Inr s' \<Longrightarrow> subscribedSymbolsRef s' = subscribedSymbolsRef s"
  by (auto simp: ws_send_def split: sum.splits)

lemma subscribe_symbols:
  "set (subscribedSymbolsRef (subscribe S s)) = set (subscribedSymbolsRef s) \<union> set S"
proof -
  have "filter (\<lambda>x. x \<notin> set xs) S = [] \<Longrightarrow> set xs \<union> set S = set xs" for xs :: "string list"
    by (auto simp: filter_empty_conv)
  then show ?thesis
    by (auto simp: subscribe_def Let_def set_foldl_set_add
        dest: ws_send_symbols split: option.splits sum.splits)
qed

lemma subscribe_twice: "subscribe S (subscribe S s) = subscribe S s"
proof -
  let ?new = "filter (\<lambda>x. x \<notin> set (subscribedSymbolsRef s)) S"
  have sub: "subscribedSymbolsRef (subscribe S s) = foldl set_add (subscribedSymbolsRef s) ?new"
    by (auto simp: subscribe_def Let_def ws_send_def send_def split: option.splits readyState.splits)
  have "filter (\<lambda>x. x \<notin> set (subscribedSymbolsRef (subscribe S s))) S = []"
    unfolding sub by (auto simp: set_foldl_set_add filter_empty_conv)
  then show ?thesis
    by (subst subscribe_def) (simp add: Let_def)
qed


lemma subscribe_wire_idle:
  "\<not> canSend s \<or> filter (\<lambda>x. x \<notin> set (subscribedSymbolsRef s)) S = [] \<Longrightarrow>
   sockets (subscribe S s) = sockets s"
  by (auto simp: subscribe_def Let_def canSend_def split: option.splits)

lemma subscribe_wire_send:
  assumes "canSend s" and "filter (\<lambda>x. x \<notin> set (subscribedSymbolsRef s)) S \<noteq> []"
    and "wsRef s = Some i"
  shows "wire (subscribe S s) =
     (wire s)[i := wire s ! i @ [SubscribeMsg (filter (\<lambda>x. x \<notin> set (subscribedSymbolsRef s)) S)]]"
proof (cases "i < length (sockets s)")
  case True
  with assms show ?thesis
    by (auto simp: subscribe_def Let_def ws_send_def send_def canSend_def wire_def map_update)
next
  case False
  with assms show ?thesis
    by (auto simp: subscribe_def Let_def ws_send_def send_def canSend_def wire_def
        list_update_beyond)
qed

lemma unsubscribe_idle:
  "\<not> canSend s \<Longrightarrow> sockets (unsubscribe S s) = sockets s"
  by (auto simp: unsubscribe_def Let_def canSend_def split: option.splits)

lemma unsubscribe_symbols:
  "subscribedSymbolsRef (unsubscribe S s) = filter (\<lambda>x. x \<notin> set S) (subscribedSymbolsRef s)"
proof -
  have "filter (\<lambda>x. x \<notin> set (filter (\<lambda>y. y \<in> set xs) S)) xs = filter (\<lambda>x. x \<notin> set S) xs" for xs :: "string list"
    by (rule filter_cong) auto
  moreover have "filter (\<lambda>y. y \<in> set xs) S = [] \<Longrightarrow> filter (\<lambda>x. x \<notin> set S) xs = xs" for xs :: "string list"
    by (auto simp: filter_empty_conv filter_id_conv)
  ultimately show ?thesis
    by (auto simp: unsubscribe_def Let_def foldl_set_delete ws_send_def send_def
        split: option.splits readyState.splits)
qed

lemma unsubscribe_prices: "prices (unsubscribe S s) = prices s"
  by (auto simp: unsubscribe_def Let_def ws_send_def send_def
        split: option.splits readyState.splits)

lemma onopen_resume_wire:
  "i < length (sockets s) \<Longrightarrow> readyState (sockets s ! i) = OPEN \<Longrightarrow>
   wire (onopen_resume i True s) =
     (wire s)[i := wire s ! i @
        (if subscribedSymbolsRef s = [] then [] else [SubscribeMsg (subscribedSymbolsRef s)])]"
  by (auto simp: onopen_resume_def ws_send_def send_def wire_def map_update map_update_same)

text \<open>
  Claim C1, as amended. A call \<^verbatim>\<open>subscribe(S)\<close> writes to the wire only when the socket
  of \<^verbatim>\<open>wsRef\<close> is open, the client is authenticated and some symbol of \<open>S\<close> is not in
  the set yet; what it writes then is one subscribe message, on that socket, with
  exactly the symbols of \<open>S\<close> that were not in the set. A second call with the same
  \<open>S\<close> writes nothing. In every case the symbols of \<open>S\<close> are in the set afterwards.
  So two calls in a row send one subscribe message in that case and none otherwise
  (\<open>wsRefValid\<close> holds in every reachable state).
\<close>

theorem subscribe_messages:
  "(\<not> canSend s \<or> filter (\<lambda>x. x \<notin> set (subscribedSymbolsRef s)) S = [] \<longrightarrow>
      wire (subscribe S s) = wire s) \<and>
   (canSend s \<and> filter (\<lambda>x. x \<notin> set (subscribedSymbolsRef s)) S \<noteq> [] \<and> wsRef s = Some i \<longrightarrow>
      wire (subscribe S s) =
        (wire s)[i := wire s ! i @
           [SubscribeMsg (filter (\<lambda>x. x \<notin> set (subscribedSymbolsRef s)) S)]]) \<and>
   wire (subscribe S (subscribe S s)) = wire (subscribe S s) \<and>
   set (subscribedSymbolsRef (subscribe S s)) = set (subscribedSymbolsRef s) \<union> set S \<and>
   (wsRefValid s \<longrightarrow>
      subscribeCount (subscribe S (subscribe S s)) =
        subscribeCount s +
          (if canSend s \<and> filter (\<lambda>x. x \<notin> set (subscribedSymbolsRef s)) S \<noteq> [] then 1 else 0))"
proof (intro conjI impI)
  assume "\<not> canSend s \<or> filter (\<lambda>x. x \<notin> set (subscribedSymbolsRef s)) S = []"
  then show "wire (subscribe S s) = wire s"
    by (simp only: wire_def subscribe_wire_idle)
next
  assume "canSend s \<and> filter (\<lambda>x. x \<notin> set (subscribedSymbolsRef s)) S \<noteq> [] \<and> wsRef s = Some i"
  then show "wire (subscribe S s) =
        (wire s)[i := wire s ! i @
           [SubscribeMsg (filter (\<lambda>x. x \<notin> set (subscribedSymbolsRef s)) S)]]"
    by (simp add: subscribe_wire_send)
next
  show "wire (subscribe S (subscribe S s)) = wire (subscribe S s)"
    by (simp add: subscribe_twice)
next
  show "set (subscribedSymbolsRef (subscribe S s)) = set (subscribedSymbolsRef s) \<union> set S"
    by (rule subscribe_symbols)
next
  assume valid: "wsRefValid s"
  let ?new = "filter (\<lambda>x. x \<notin> set (subscribedSymbolsRef s)) S"
  show "subscribeCount (subscribe S (subscribe S s)) =
        subscribeCount s + (if canSend s \<and> ?new \<noteq> [] then 1 else 0)"
  proof (cases "canSend s \<and> ?new \<noteq> []")
    case True
    then obtain i where i: "wsRef s = Some i"
      by (auto simp: canSend_def split: option.splits)
    with valid have len: "i < length (wire s)"
      by (simp add: wsRefValid_def wire_def)
    from True i have "wire (subscribe S s) = (wire s)[i := wire s ! i @ [SubscribeMsg ?new]]"
      by (simp add: subscribe_wire_send)
    with len True show ?thesis
      by (simp add: subscribe_twice subscribeCount_def count_concat_update)
  next
    case False
    then have "sockets (subscribe S s) = sockets s"
      by (intro subscribe_wire_idle) auto
    with False show ?thesis
      by (simp add: subscribe_twice subscribeCount_def wire_def)
  qed
qed

text \<open>An authenticated client that has \<open>NIFTY\<close> already and subscribes twice to
  \<open>NIFTY\<close> and \<open>BANKNIFTY\<close>.\<close>

theorem subscribe_messages_witness:
  "canSend (run demoPlatform demoProps (initialState demoPlatform NoItem 0)
      [EvConnect, EvOpen 0, EvSubscribe [''NIFTY'']]) \<and>
   wsRefValid (run demoPlatform demoProps (initialState demoPlatform NoItem 0)
      [EvConnect, EvOpen 0, EvSubscribe [''NIFTY'']]) \<and>
   wire (run demoPlatform demoProps (initialState demoPlatform NoItem 0)
      [EvConnect, EvOpen 0, EvSubscribe [''NIFTY''], EvSubscribe [''NIFTY'', ''BANKNIFTY'']]) =
     [[SubscribeMsg [''NIFTY''], SubscribeMsg [''BANKNIFTY'']]] \<and>
   subscribeCount (run demoPlatform demoProps (initialState demoPlatform NoItem 0)
      [EvConnect, EvOpen 0, EvSubscribe [''NIFTY''], EvSubscribe [''NIFTY'', ''BANKNIFTY''],
       EvSubscribe [''NIFTY'', ''BANKNIFTY'']]) = 2 \<and>
   wire (run demoPlatform demoProps (initialState demoPlatform NoItem 0)
      [EvConnect, EvOpen 0, EvSubscribe [''NIFTY''], EvSubscribe [''NIFTY'']]) =
     [[SubscribeMsg [''NIFTY'']]]"
  using subscribe_messages [of
      "run demoPlatform demoProps (initialState demoPlatform NoItem 0)
         [EvConnect, EvOpen 0, EvSubscribe [''NIFTY'']]"
      "[''NIFTY'', ''BANKNIFTY'']" 0]
    subscribe_messages [of
      "run demoPlatform demoProps (initialState demoPlatform NoItem 0)
         [EvConnect, EvOpen 0, EvSubscribe [''NIFTY'']]"
      "[''NIFTY'']" 0]
  by (simp add: handler_defs demo_defs canSend_def wsRefValid_def wire_def subscribeCount_def
      Let_def)

text \<open>Before authentication the count is zero, not one: a consumer that subscribes twice
  while the socket is still connecting causes no subscribe message at all.\<close>

theorem subscribe_twice_before_open:
  "wire (run demoPlatform demoProps (initialState demoPlatform NoItem 0)
      [EvConnect, EvSubscribe [''NIFTY''], EvSubscribe [''NIFTY'']]) = [[]] \<and>
   subscribeCount (run demoPlatform demoProps (initialState demoPlatform NoItem 0)
      [EvConnect, EvSubscribe [''NIFTY''], EvSubscribe [''NIFTY'']]) \<noteq>
   subscribeCount (run demoPlatform demoProps (initialState demoPlatform NoItem 0)
      [EvConnect]) + 1"
  by (simp add: handler_defs demo_defs wire_def subscribeCount_def Let_def)

text \<open>
  Claim C10. A call \<^verbatim>\<open>unsubscribe(S)\<close> made while the socket of \<^verbatim>\<open>wsRef\<close> is not open
  or the client is not authenticated removes the symbols of \<open>S\<close> from the set, writes
  nothing to any socket and leaves the price map alone. The resync that follows the
  next successful authentication, on whichever open socket \<open>i\<close> it happens, carries the
  set without the symbols of \<open>S\<close>.
\<close>

theorem unsubscribe_offline:
  "\<not> canSend s \<longrightarrow>
     subscribedSymbolsRef (unsubscribe S s) = filter (\<lambda>x. x \<notin> set S) (subscribedSymbolsRef s) \<and>
     wire (unsubscribe S s) = wire s \<and>
     prices (unsubscribe S s) = prices s \<and>
     (i < length (sockets s) \<and> readyState (sockets s ! i) = OPEN \<longrightarrow>
        wire (onopen_resume i True (unsubscribe S s)) =
          (wire s)[i := wire s ! i @
             (if filter (\<lambda>x. x \<notin> set S) (subscribedSymbolsRef s) = [] then []
              else [SubscribeMsg (filter (\<lambda>x. x \<notin> set S) (subscribedSymbolsRef s))])])"
proof (intro impI conjI)
  assume off: "\<not> canSend s"
  show "subscribedSymbolsRef (unsubscribe S s) = filter (\<lambda>x. x \<notin> set S) (subscribedSymbolsRef s)"
    by (rule unsubscribe_symbols)
  from off show w: "wire (unsubscribe S s) = wire s"
    by (simp add: wire_def unsubscribe_idle)
  show "prices (unsubscribe S s) = prices s"
    by (rule unsubscribe_prices)
  assume "i < length (sockets s) \<and> readyState (sockets s ! i) = OPEN"
  with off have "i < length (sockets (unsubscribe S s))"
    and "readyState (sockets (unsubscribe S s) ! i) = OPEN"
    by (simp_all add: unsubscribe_idle)
  then show "wire (onopen_resume i True (unsubscribe S s)) =
          (wire s)[i := wire s ! i @
             (if filter (\<lambda>x. x \<notin> set S) (subscribedSymbolsRef s) = [] then []
              else [SubscribeMsg (filter (\<lambda>x. x \<notin> set S) (subscribedSymbolsRef s))])]"
    by (simp only: onopen_resume_wire w unsubscribe_symbols)
qed

text \<open>A client with a credential: two symbols are subscribed and one is unsubscribed
  while the handshake is pending; the server then accepts.\<close>

theorem unsubscribe_offline_witness:
  "\<not> canSend (run demoPlatform keyedProps (initialState demoPlatform NoItem 0)
      [EvConnect, EvOpen 0, EvSubscribe [''NIFTY'', ''BANKNIFTY'']]) \<and>
   readyState (sockets (run demoPlatform keyedProps (initialState demoPlatform NoItem 0)
      [EvConnect, EvOpen 0, EvSubscribe [''NIFTY'', ''BANKNIFTY'']]) ! 0) = OPEN \<and>
   subscribedSymbolsRef (run demoPlatform keyedProps (initialState demoPlatform NoItem 0)
      [EvConnect, EvOpen 0, EvSubscribe [''NIFTY'', ''BANKNIFTY''], EvUnsubscribe [''NIFTY'']]) =
     [''BANKNIFTY''] \<and>
   wire (run demoPlatform keyedProps (initialState demoPlatform NoItem 0)
      [EvConnect, EvOpen 0, EvSubscribe [''NIFTY'', ''BANKNIFTY''], EvUnsubscribe [''NIFTY'']]) =
     [[]] \<and>
   wire (run demoPlatform keyedProps (initialState demoPlatform NoItem 0)
      [EvConnect, EvOpen 0, EvSubscribe [''NIFTY'', ''BANKNIFTY''], EvUnsubscribe [''NIFTY''],
       EvMessage 0 (Authenticated ''token'')]) = [[SubscribeMsg [''BANKNIFTY'']]]"
  using unsubscribe_offline [of
      "run demoPlatform keyedProps (initialState demoPlatform NoItem 0)
         [EvConnect, EvOpen 0, EvSubscribe [''NIFTY'', ''BANKNIFTY'']]"
      "[''NIFTY'']" 0]
  by (simp add: handler_defs demo_defs canSend_def wire_def Let_def)

subsection \<open>The resync after a reconnect\<close>

lemma close_keeps_symbols:
  "subscribedSymbolsRef (step P c s (EvClose i code)) = subscribedSymbolsRef s"
  by (simp add: onclose_def setTimeout_def setReadyState_def Let_def split: prod.splits)

lemma open_without_key:
  assumes "i < length (sockets s)" "readyState (sockets s ! i) = CONNECTING" "noApiKey (apiKey c)"
  shows "isAuthenticated (step P c s (EvOpen i)) \<and>
     wire (step P c s (EvOpen i)) = (wire s)[i := wire s ! i @ fullResync s]"
  using assms
  by (simp add: onopen_def authenticate_def onopen_resume_def ws_send_def send_def
      setReadyState_def wire_def fullResync_def map_update Let_def)

lemma authenticated_message:
  assumes "i < length (sockets s)" "readyState (sockets s ! i) = OPEN" "apiKey c = Some k"
    "authListener (sockets s ! i) = Some tid" "authPending (sockets s ! i)"
  shows "isAuthenticated (step P c s (EvMessage i (Authenticated token))) \<and>
     wire (step P c s (EvMessage i (Authenticated token))) = (wire s)[i := wire s ! i @ fullResync s]"
  using assms
  by (simp add: dispatchMessage_def resolve_def removeEventListener_def clearTimeout_def
      onopen_resume_def ws_send_def send_def
      wire_def fullResync_def map_update Let_def)


lemma send_readyState: "send m t = Inr t' \<Longrightarrow> readyState t' = readyState t"
  by (auto simp: send_def split: readyState.splits)

lemma ws_send_frame:
  assumes "ws_send i m s = Inr s'"
  shows "map readyState (sockets s') = map readyState (sockets s) \<and> wsRef s' = wsRef s"
proof -
  from assms obtain t' where t': "send m (sockets s ! i) = Inr t'"
    and s': "s' = s\<lparr>sockets := (sockets s)[i := t']\<rparr>"
    by (auto simp: ws_send_def split: sum.splits)
  have "map readyState (sockets s') = (map readyState (sockets s))[i := readyState (sockets s ! i)]"
    unfolding s' by (simp add: map_update send_readyState [OF t'])
  then show ?thesis
    by (simp add: map_update_same s')
qed

lemma subscribe_frame:
  "map readyState (sockets (subscribe S s)) = map readyState (sockets s) \<and>
   wsRef (subscribe S s) = wsRef s"
  by (auto simp: subscribe_def Let_def dest: ws_send_frame split: option.splits sum.splits)

lemma unsubscribe_frame:
  "map readyState (sockets (unsubscribe S s)) = map readyState (sockets s) \<and>
   wsRef (unsubscribe S s) = wsRef s"
  by (auto simp: unsubscribe_def Let_def dest: ws_send_frame split: option.splits sum.splits)

lemma subOps_frame:
  "list_all isSubOp ops \<Longrightarrow>
   map readyState (sockets (run P c s ops)) = map readyState (sockets s) \<and>
   wsRef (run P c s ops) = wsRef s"
proof (induction ops arbitrary: s)
  case Nil
  then show ?case by (simp add: run_def)
next
  case (Cons e ops)
  then have "isSubOp e" and rest: "list_all isSubOp ops" by simp_all
  then obtain S where "e = EvSubscribe S \<or> e = EvUnsubscribe S"
    by (cases e) auto
  then have "map readyState (sockets (step P c s e)) = map readyState (sockets s) \<and>
     wsRef (step P c s e) = wsRef s"
    using subscribe_frame unsubscribe_frame by auto
  with Cons.IH [OF rest, of "step P c s e"] show ?case
    by (simp add: run_def)
qed


lemma close_result:
  assumes "i < length (sockets s)" "readyState (sockets s ! i) \<noteq> CLOSED"
  shows "wsRef (step P c s (EvClose i code)) = None \<and>
     \<not> connectionInProgressRef (step P c s (EvClose i code)) \<and>
     \<not> authenticationInProgressRef (step P c s (EvClose i code)) \<and>
     length (sockets (step P c s (EvClose i code))) = length (sockets s) \<and>
     subscribedSymbolsRef (step P c s (EvClose i code)) = subscribedSymbolsRef s"
  using assms
  by (simp add: onclose_def setTimeout_def setReadyState_def Let_def split: prod.splits)

lemma connect_result:
  assumes "wsRef s = None" "\<not> connectionInProgressRef s" "enabled c" "url c \<noteq> []"
    "urlAccepted P (url c)"
  shows "connect P c s =
     s\<lparr>connectionInProgressRef := True, sockets := sockets s @ [newWebSocket],
       wsRef := Some (length (sockets s))\<rparr>"
  using assms by (simp add: connect_def wsLive_def Let_def)


lemma handshake_on_new_socket:
  assumes "j < length (sockets s)" "sockets s ! j = newWebSocket"
    "\<not> authenticationInProgressRef s"
  shows "wire (run P c s (EvOpen j #
            (if noApiKey (apiKey c) then [] else [EvMessage j (Authenticated token)]))) ! j =
         fullResync s"
proof (cases "noApiKey (apiKey c)")
  case True
  from assms have "readyState (sockets s ! j) = CONNECTING" "outbox (sockets s ! j) = []"
    by (simp_all add: newWebSocket_def)
  with assms True have "wire (step P c s (EvOpen j)) = (wire s)[j := wire s ! j @ fullResync s]"
    and "wire s ! j = []" and "j < length (wire s)"
    using open_without_key [of j s c P] by (simp_all add: wire_def)
  then have "wire (step P c s (EvOpen j)) ! j = fullResync s"
    by simp
  with True show ?thesis
    by (simp only: run_Cons run_Nil if_True)
next
  case False
  then obtain k where k: "apiKey c = Some k" "k \<noteq> []"
    by (cases "apiKey c") auto
  define s1 where "s1 = step P c s (EvOpen j)"
  from assms have new: "readyState (sockets s ! j) = CONNECTING" "outbox (sockets s ! j) = []"
    by (simp_all add: newWebSocket_def)
  have s1_eq: "s1 = onopen c j (setReadyState j OPEN s)"
    unfolding s1_def using assms(1) new(1) by simp
  from assms(1,3) k new(2) have s1: "j < length (sockets s1)" "readyState (sockets s1 ! j) = OPEN"
    "authListener (sockets s1 ! j) = Some (nextTimerId s)" "authPending (sockets s1 ! j)"
    "outbox (sockets s1 ! j) = []" "subscribedSymbolsRef s1 = subscribedSymbolsRef s"
    unfolding s1_eq
    by (simp_all add: onopen_def authenticate_def setTimeout_def setReadyState_def Let_def)
  from s1(1-4) k(1)
  have "wire (step P c s1 (EvMessage j (Authenticated token))) =
      (wire s1)[j := wire s1 ! j @ fullResync s1]"
    using authenticated_message [of j s1 c k "nextTimerId s" P token] by simp
  moreover from s1 have "wire s1 ! j = []" "j < length (wire s1)" "fullResync s1 = fullResync s"
    by (simp_all add: wire_def fullResync_def)
  ultimately have "wire (step P c s1 (EvMessage j (Authenticated token))) ! j = fullResync s"
    by simp
  with False show ?thesis
    unfolding s1_def by (simp only: run_Cons run_Nil if_False)
qed

lemma reconnect_resync:
  assumes "i < length (sockets s)" "readyState (sockets s ! i) \<noteq> CLOSED"
    "enabled c" "url c \<noteq> []" "urlAccepted P (url c)"
  shows "wire (run P c s (EvClose i code # EvConnect # EvOpen (length (sockets s)) #
            (if noApiKey (apiKey c) then []
             else [EvMessage (length (sockets s)) (Authenticated token)])))
          ! length (sockets s) = fullResync s"
proof -
  define s1 where "s1 = step P c s (EvClose i code)"
  define s2 where "s2 = connect P c s1"
  let ?j = "length (sockets s)"
  have c1: "wsRef s1 = None" "\<not> connectionInProgressRef s1" "\<not> authenticationInProgressRef s1"
    "length (sockets s1) = length (sockets s)" "subscribedSymbolsRef s1 = subscribedSymbolsRef s"
    unfolding s1_def using close_result [OF assms(1,2), of P c code] by simp_all
  from c1 assms have s2: "s2 = s1\<lparr>connectionInProgressRef := True,
      sockets := sockets s1 @ [newWebSocket], wsRef := Some (length (sockets s1))\<rparr>"
    unfolding s2_def by (intro connect_result) simp_all
  have fr: "fullResync s2 = fullResync s"
    unfolding s2 using c1 by (simp add: fullResync_def)
  have h: "?j < length (sockets s2)" "sockets s2 ! ?j = newWebSocket"
    "\<not> authenticationInProgressRef s2"
    unfolding s2 using c1 by (simp_all add: nth_append)
  have "wire (run P c s2 (EvOpen ?j #
            (if noApiKey (apiKey c) then [] else [EvMessage ?j (Authenticated token)]))) ! ?j =
         fullResync s2"
    using h by (rule handshake_on_new_socket)
  then have "wire (run P c s2 (EvOpen ?j #
            (if noApiKey (apiKey c) then [] else [EvMessage ?j (Authenticated token)]))) ! ?j =
         fullResync s"
    by (simp only: fr)
  then show ?thesis
    unfolding s2_def s1_def by (simp only: run_Cons step.simps(1))
qed

lemma symbols_after_reconnect:
  assumes "list_all isSubOp ops" "i < length (sockets s)"
    "readyState (sockets s ! i) \<noteq> CLOSED" "enabled c" "url c \<noteq> []" "urlAccepted P (url c)"
  shows "wire (run P c s (ops @ EvClose i code # EvConnect # EvOpen (length (sockets s)) #
            (if noApiKey (apiKey c) then []
             else [EvMessage (length (sockets s)) (Authenticated token)])))
          ! length (sockets s) = fullResync (run P c s ops)"
proof -
  define s' where "s' = run P c s ops"
  have fr0: "map readyState (sockets s') = map readyState (sockets s)"
    unfolding s'_def using subOps_frame [OF assms(1), of P c s] by simp
  have fr: "length (sockets s') = length (sockets s)"
    "map readyState (sockets s') = map readyState (sockets s)"
    using fr0 by (rule map_eq_imp_length_eq, assumption)
  from fr assms(2) have rs: "readyState (sockets s' ! i) = readyState (sockets s ! i)"
    by (metis nth_map)
  from fr assms rs
  have "wire (run P c s' (EvClose i code # EvConnect # EvOpen (length (sockets s')) #
            (if noApiKey (apiKey c) then []
             else [EvMessage (length (sockets s')) (Authenticated token)])))
          ! length (sockets s') = fullResync s'"
    by (intro reconnect_resync) simp_all
  then show ?thesis
    unfolding fr(1) unfolding s'_def by (simp only: run_append)
qed

text \<open>
  Claim C2. No \<^verbatim>\<open>close\<close> event changes the subscription set. Each of the two ways in
  which authentication succeeds (the socket opens and no credential is configured; the
  server's \<^verbatim>\<open>authenticated\<close> message arrives during a handshake) makes the client
  authenticated and appends to that socket, and to no other, the resync of the set as
  it is at that moment: one subscribe message with the whole set, or nothing when the
  set is empty. Therefore, after any calls \<open>ops\<close> of \<^verbatim>\<open>subscribe\<close> and \<^verbatim>\<open>unsubscribe\<close>,
  when a socket closes, \<^verbatim>\<open>connect\<close> runs (from the reconnect timer or from
  \<^verbatim>\<open>reconnect()\<close>) and authentication succeeds on the new socket, what has been sent on
  the new socket is exactly the resync of the set that \<open>ops\<close> left.
\<close>

theorem resync_fidelity:
  "subscribedSymbolsRef (step P c s (EvClose i code)) = subscribedSymbolsRef s \<and>
   (i < length (sockets s) \<and> readyState (sockets s ! i) = CONNECTING \<and> noApiKey (apiKey c) \<longrightarrow>
      isAuthenticated (step P c s (EvOpen i)) \<and>
      wire (step P c s (EvOpen i)) = (wire s)[i := wire s ! i @ fullResync s]) \<and>
   (i < length (sockets s) \<and> readyState (sockets s ! i) = OPEN \<and> apiKey c = Some k \<and>
    authListener (sockets s ! i) = Some tid \<and> authPending (sockets s ! i) \<longrightarrow>
      isAuthenticated (step P c s (EvMessage i (Authenticated token))) \<and>
      wire (step P c s (EvMessage i (Authenticated token))) =
        (wire s)[i := wire s ! i @ fullResync s]) \<and>
   (list_all isSubOp ops \<and> i < length (sockets s) \<and> readyState (sockets s ! i) \<noteq> CLOSED \<and>
    enabled c \<and> url c \<noteq> [] \<and> urlAccepted P (url c) \<longrightarrow>
      wire (run P c s (ops @ EvClose i code # EvConnect # EvOpen (length (sockets s)) #
             (if noApiKey (apiKey c) then []
              else [EvMessage (length (sockets s)) (Authenticated token)])))
        ! length (sockets s) = fullResync (run P c s ops))"
proof (intro conjI impI)
  show "subscribedSymbolsRef (step P c s (EvClose i code)) = subscribedSymbolsRef s"
    by (rule close_keeps_symbols)
next
  assume "i < length (sockets s) \<and> readyState (sockets s ! i) = CONNECTING \<and> noApiKey (apiKey c)"
  then have a: "i < length (sockets s)" "readyState (sockets s ! i) = CONNECTING"
    "noApiKey (apiKey c)"
    by simp_all
  show "isAuthenticated (step P c s (EvOpen i))"
    and "wire (step P c s (EvOpen i)) = (wire s)[i := wire s ! i @ fullResync s]"
    using open_without_key [OF a, of P] by simp_all
next
  assume "i < length (sockets s) \<and> readyState (sockets s ! i) = OPEN \<and> apiKey c = Some k \<and>
    authListener (sockets s ! i) = Some tid \<and> authPending (sockets s ! i)"
  then have a: "i < length (sockets s)" "readyState (sockets s ! i) = OPEN" "apiKey c = Some k"
    "authListener (sockets s ! i) = Some tid" "authPending (sockets s ! i)"
    by simp_all
  show "isAuthenticated (step P c s (EvMessage i (Authenticated token)))"
    and "wire (step P c s (EvMessage i (Authenticated token))) =
        (wire s)[i := wire s ! i @ fullResync s]"
    using authenticated_message [OF a, of P token] by simp_all
next
  assume "list_all isSubOp ops \<and> i < length (sockets s) \<and> readyState (sockets s ! i) \<noteq> CLOSED \<and>
    enabled c \<and> url c \<noteq> [] \<and> urlAccepted P (url c)"
  then have a: "list_all isSubOp ops" "i < length (sockets s)"
    "readyState (sockets s ! i) \<noteq> CLOSED" "enabled c" "url c \<noteq> []" "urlAccepted P (url c)"
    by simp_all
  show "wire (run P c s (ops @ EvClose i code # EvConnect # EvOpen (length (sockets s)) #
             (if noApiKey (apiKey c) then []
              else [EvMessage (length (sockets s)) (Authenticated token)])))
        ! length (sockets s) = fullResync (run P c s ops)"
    using a by (rule symbols_after_reconnect)
qed

text \<open>Without a credential: three calls change the set, the open socket drops (1006) and
  the client reconnects. With a credential: the same, and the server accepts.\<close>

theorem resync_fidelity_witness:
  "readyState (sockets (run demoPlatform demoProps (initialState demoPlatform NoItem 0)
      [EvConnect, EvOpen 0]) ! 0) = OPEN \<and>
   subscribedSymbolsRef (run demoPlatform demoProps (initialState demoPlatform NoItem 0)
      [EvConnect, EvOpen 0, EvSubscribe [''NIFTY'', ''BANKNIFTY''], EvUnsubscribe [''NIFTY''],
       EvSubscribe [''SENSEX'']]) = [''BANKNIFTY'', ''SENSEX''] \<and>
   wire (run demoPlatform demoProps (initialState demoPlatform NoItem 0)
      [EvConnect, EvOpen 0, EvSubscribe [''NIFTY'', ''BANKNIFTY''], EvUnsubscribe [''NIFTY''],
       EvSubscribe [''SENSEX''], EvClose 0 1006, EvConnect, EvOpen 1]) ! 1 =
     [SubscribeMsg [''BANKNIFTY'', ''SENSEX'']] \<and>
   wire (run demoPlatform keyedProps (initialState demoPlatform NoItem 0)
      [EvConnect, EvOpen 0, EvSubscribe [''NIFTY'', ''BANKNIFTY''], EvUnsubscribe [''NIFTY''],
       EvSubscribe [''SENSEX''], EvClose 0 1006, EvConnect, EvOpen 1,
       EvMessage 1 (Authenticated ''token'')]) ! 1 =
     [SubscribeMsg [''BANKNIFTY'', ''SENSEX'']] \<and>
   readyState (sockets (run demoPlatform demoProps (initialState demoPlatform NoItem 0)
      [EvSubscribe [''NIFTY''], EvConnect]) ! 0) = CONNECTING \<and>
   wire (run demoPlatform demoProps (initialState demoPlatform NoItem 0)
      [EvSubscribe [''NIFTY''], EvConnect, EvOpen 0]) = [[SubscribeMsg [''NIFTY'']]]"
  using resync_fidelity [of demoPlatform demoProps
      "run demoPlatform demoProps (initialState demoPlatform NoItem 0)
         [EvSubscribe [''NIFTY''], EvConnect]"
      0 1006 "''key''" 0 "''token''" "[]"]
    resync_fidelity [of demoPlatform demoProps
      "run demoPlatform demoProps (initialState demoPlatform NoItem 0) [EvConnect, EvOpen 0]"
      0 1006 "''key''" 0 "''token''"
      "[EvSubscribe [''NIFTY'', ''BANKNIFTY''], EvUnsubscribe [''NIFTY''], EvSubscribe [''SENSEX'']]"]
    resync_fidelity [of demoPlatform keyedProps
      "run demoPlatform keyedProps (initialState demoPlatform NoItem 0) [EvConnect, EvOpen 0]"
      0 1006 "''key''" 0 "''token''"
      "[EvSubscribe [''NIFTY'', ''BANKNIFTY''], EvUnsubscribe [''NIFTY''], EvSubscribe [''SENSEX'']]"]
  by (simp add: handler_defs demo_defs wire_def fullResync_def Let_def)

subsection \<open>Persisting the prices\<close>

lemma ws_send_prices: "ws_send i m s = Inr s' \<Longrightarrow> prices s' = prices s"
  by (auto simp: ws_send_def split: sum.splits)

lemma onopen_resume_prices: "prices (onopen_resume i b s) = prices s"
  by (auto simp: onopen_resume_def ws_close_def dest: ws_send_prices split: sum.splits)

lemma resolve_prices: "prices (resolve i b s) = prices s"
  by (simp add: resolve_def onopen_resume_prices)

lemma messageHandlerCatch_prices: "prices (messageHandlerCatch i tid s) = prices s"
  by (simp add: messageHandlerCatch_def resolve_prices removeEventListener_def clearTimeout_def)

lemma messageHandler_prices: "prices (messageHandler P k i tid m s) = prices s"
  by (cases m)
    (auto simp: resolve_prices messageHandlerCatch_prices removeEventListener_def
      clearTimeout_def dest: ws_send_prices split: sum.splits)

lemma connect_prices: "prices (connect P c s) = prices s"
  by (auto simp: connect_def Let_def ws_close_def split: option.splits)

lemma subscribe_prices: "prices (subscribe S s) = prices s"
  by (auto simp: subscribe_def Let_def dest: ws_send_prices split: option.splits sum.splits)

lemma cleanup_prices: "prices (cleanup s) = prices s"
  by (auto simp: cleanup_def Let_def ws_close_def clearTimeout_def split: option.splits)

lemma onopen_prices: "prices (onopen c i s) = prices s"
  by (auto simp: onopen_def authenticate_def setTimeout_def Let_def onopen_resume_prices
      split: prod.splits promise.splits)

lemma onclose_prices: "prices (onclose c code s) = prices s"
  by (auto simp: onclose_def setTimeout_def Let_def split: prod.splits)

lemma runTimer_prices: "prices (runTimer P c cb s) = prices s"
  by (cases cb) (simp_all add: runTimer_def authTimeoutCallback_def resolve_prices connect_prices)

lemma update_not_Nil: "AList.update k v al \<noteq> []"
  by (cases al) simp_all

lemma dispatch_prices: "prices (dispatchMessage P c i m s) = prices (onmessage P m s)"
  by (simp add: dispatchMessage_def Let_def messageHandler_prices del: messageHandler.simps
      split: option.splits)

lemma dispatch_PriceUpdate:
  "dispatchMessage P c i (PriceUpdate symbol p) s = setPrices P symbol p s"
  by (simp add: dispatchMessage_def Let_def split: option.splits)

lemma setPrices_fields:
  "prices (setPrices P symbol p s) = AList.update symbol p (prices s) \<and>
   now (setPrices P symbol p s) = now s \<and>
   localStorage (setPrices P symbol p s) =
     (if hasWindow P \<and>
         \<not> setItemThrows P
             (Snapshot (Some (storedData (AList.update symbol p (prices s)))) (Some (now s)))
      then Snapshot (Some (storedData (AList.update symbol p (prices s)))) (Some (now s))
      else localStorage s)"
  by (simp add: setPrices_def persistPrices_def Let_def update_not_Nil)

lemma stringified_lossless: "lossless v \<Longrightarrow> stringified v = v"
proof (induction v rule: stringified.induct)
  case (4 vs)
  then show ?case by (simp add: list_all_iff map_idI)
next
  case (5 kvs)
  then have "map_prod id stringified kv = kv" if "kv \<in> set kvs" for kv
    using that by (cases kv) (auto simp: list_all_iff)
  then show ?case by (simp add: map_idI)
qed simp_all

lemma storedData_keptWhole: "list_all keptWhole m \<Longrightarrow> storedData m = m"
proof -
  assume a: "list_all keptWhole m"
  have "snd kv \<noteq> None" if "kv \<in> set m" for kv
  proof (cases kv)
    case (Pair k v)
    with a that have "keptWhole (k, v)" by (auto simp: list_all_iff)
    then show ?thesis
      unfolding Pair by (cases v) simp_all
  qed
  then have "filter (\<lambda>kv. snd kv \<noteq> None) m = m"
    by (simp add: filter_id_conv)
  moreover have "map_prod id (map_option stringified) kv = kv" if "kv \<in> set m" for kv
  proof (cases kv)
    case (Pair k v)
    with a that have "keptWhole (k, v)" by (auto simp: list_all_iff)
    then show ?thesis
      unfolding Pair by (cases v) (simp_all add: stringified_lossless)
  qed
  ultimately show ?thesis
    by (simp add: storedData_def map_idI)
qed

text \<open>
  Claim C9, as amended. Whenever an event changes the price map, the effect writes to
  storage, with the current time, what \<^verbatim>\<open>JSON.stringify\<close> keeps of the new map, unless
  \<^verbatim>\<open>setItem\<close> throws on it; then the exception is caught and the stored item stays as
  it was. What is kept is the whole map when every price in it is a value that JSON
  writes in full, as the finite numbers are; an infinite price is stored as \<^verbatim>\<open>null\<close>
  and an entry whose price is \<^verbatim>\<open>undefined\<close> is left out.
\<close>

theorem price_change_persisted:
  "(hasWindow P \<and> prices (step P c s e) \<noteq> prices s \<and>
    \<not> setItemThrows P (Snapshot (Some (storedData (prices (step P c s e)))) (Some (now s))) \<longrightarrow>
      localStorage (step P c s e) =
        Snapshot (Some (storedData (prices (step P c s e)))) (Some (now (step P c s e)))) \<and>
   (hasWindow P \<and> prices (step P c s e) \<noteq> prices s \<and> list_all keptWhole (prices (step P c s e)) \<and>
    \<not> setItemThrows P (Snapshot (Some (prices (step P c s e))) (Some (now s))) \<longrightarrow>
      localStorage (step P c s e) =
        Snapshot (Some (prices (step P c s e))) (Some (now (step P c s e)))) \<and>
   (prices (step P c s e) \<noteq> prices s \<and>
    setItemThrows P (Snapshot (Some (storedData (prices (step P c s e)))) (Some (now s))) \<longrightarrow>
      localStorage (step P c s e) = localStorage s) \<and>
   storedData [(k, Some JInfinity)] = [(k, Some JNull)] \<and>
   storedData [(k, None)] = []"
proof -
  have main: "(hasWindow P \<and> prices (step P c s e) \<noteq> prices s \<and>
    \<not> setItemThrows P (Snapshot (Some (storedData (prices (step P c s e)))) (Some (now s))) \<longrightarrow>
      localStorage (step P c s e) =
        Snapshot (Some (storedData (prices (step P c s e)))) (Some (now (step P c s e)))) \<and>
   (prices (step P c s e) \<noteq> prices s \<and>
    setItemThrows P (Snapshot (Some (storedData (prices (step P c s e)))) (Some (now s))) \<longrightarrow>
      localStorage (step P c s e) = localStorage s)"
  proof (cases e)
    case (EvMessage i m)
    show ?thesis
    proof (cases m)
      case (PriceUpdate symbol p)
      show ?thesis
        unfolding EvMessage PriceUpdate
        by (simp add: dispatch_PriceUpdate setPrices_fields)
    qed (simp_all add: EvMessage dispatch_prices)
  qed (auto simp: connect_prices subscribe_prices unsubscribe_prices cleanup_prices onopen_prices
      onclose_prices runTimer_prices onerror_def setReadyState_def clearTimeout_def
      split: option.splits)
  have whole: "storedData (prices (step P c s e)) = prices (step P c s e)"
    if "list_all keptWhole (prices (step P c s e))"
    using that by (rule storedData_keptWhole)
  from main whole show ?thesis
    by (auto simp: storedData_def)
qed

text \<open>A price update on an open socket at time 250: a finite price with a storage that
  takes the write, the price \<^verbatim>\<open>1e400\<close> and a frame without price with the same storage,
  and a finite price with a storage that refuses the write.\<close>

theorem price_change_persisted_witness:
  "hasWindow demoPlatform \<and>
   prices (run demoPlatform demoProps (initialState demoPlatform NoItem 0)
      [EvConnect, EvOpen 0, EvTick 250]) = [] \<and>
   prices (run demoPlatform demoProps (initialState demoPlatform NoItem 0)
      [EvConnect, EvOpen 0, EvTick 250,
       EvMessage 0 (PriceUpdate ''NIFTY'' (Some (JNumber 101.5)))]) =
     [(''NIFTY'', Some (JNumber 101.5))] \<and>
   localStorage (run demoPlatform demoProps (initialState demoPlatform NoItem 0)
      [EvConnect, EvOpen 0, EvTick 250,
       EvMessage 0 (PriceUpdate ''NIFTY'' (Some (JNumber 101.5)))]) =
     Snapshot (Some [(''NIFTY'', Some (JNumber 101.5))]) (Some 250) \<and>
   prices (run demoPlatform demoProps (initialState demoPlatform NoItem 0)
      [EvConnect, EvOpen 0, EvTick 250, EvMessage 0 (PriceUpdate ''NIFTY'' (Some JInfinity))]) =
     [(''NIFTY'', Some JInfinity)] \<and>
   localStorage (run demoPlatform demoProps (initialState demoPlatform NoItem 0)
      [EvConnect, EvOpen 0, EvTick 250, EvMessage 0 (PriceUpdate ''NIFTY'' (Some JInfinity))]) =
     Snapshot (Some [(''NIFTY'', Some JNull)]) (Some 250) \<and>
   prices (run demoPlatform demoProps (initialState demoPlatform NoItem 0)
      [EvConnect, EvOpen 0, EvTick 250, EvMessage 0 (PriceUpdate ''NIFTY'' None)]) =
     [(''NIFTY'', None)] \<and>
   localStorage (run demoPlatform demoProps (initialState demoPlatform NoItem 0)
      [EvConnect, EvOpen 0, EvTick 250, EvMessage 0 (PriceUpdate ''NIFTY'' None)]) =
     Snapshot (Some []) (Some 250) \<and>
   setItemThrows fullStoragePlatform
     (Snapshot (Some [(''NIFTY'', Some (JNumber 101.5))]) (Some 250)) \<and>
   localStorage (run fullStoragePlatform demoProps
      (initialState fullStoragePlatform
         (Snapshot (Some [(''NIFTY'', Some (JNumber 99))]) (Some 0)) 0)
      [EvConnect, EvOpen 0, EvTick 250,
       EvMessage 0 (PriceUpdate ''NIFTY'' (Some (JNumber 101.5)))]) =
     Snapshot (Some [(''NIFTY'', Some (JNumber 99))]) (Some 0)"
  using price_change_persisted [of demoPlatform demoProps
      "run demoPlatform demoProps (initialState demoPlatform NoItem 0)
         [EvConnect, EvOpen 0, EvTick 250]"
      "EvMessage 0 (PriceUpdate ''NIFTY'' (Some (JNumber 101.5)))" "''NIFTY''"]
    price_change_persisted [of demoPlatform demoProps
      "run demoPlatform demoProps (initialState demoPlatform NoItem 0)
         [EvConnect, EvOpen 0, EvTick 250]"
      "EvMessage 0 (PriceUpdate ''NIFTY'' (Some JInfinity))" "''NIFTY''"]
    price_change_persisted [of demoPlatform demoProps
      "run demoPlatform demoProps (initialState demoPlatform NoItem 0)
         [EvConnect, EvOpen 0, EvTick 250]"
      "EvMessage 0 (PriceUpdate ''NIFTY'' None)" "''NIFTY''"]
    price_change_persisted [of fullStoragePlatform demoProps
      "run fullStoragePlatform demoProps
         (initialState fullStoragePlatform
            (Snapshot (Some [(''NIFTY'', Some (JNumber 99))]) (Some 0)) 0)
         [EvConnect, EvOpen 0, EvTick 250]"
      "EvMessage 0 (PriceUpdate ''NIFTY'' (Some (JNumber 101.5)))" "''NIFTY''"]
  by (simp add: handler_defs demo_defs storedData_def Let_def)

text \<open>When the storage refuses the write, the price map has changed and there is no
  snapshot of it.\<close>

theorem price_change_not_persisted:
  "prices (run fullStoragePlatform demoProps (initialState fullStoragePlatform NoItem 0)
      [EvConnect, EvOpen 0, EvTick 250, EvMessage 0 (PriceUpdate ''NIFTY'' (Some (JNumber 101.5)))]) =
     [(''NIFTY'', Some (JNumber 101.5))] \<and>
   localStorage (run fullStoragePlatform demoProps (initialState fullStoragePlatform NoItem 0)
      [EvConnect, EvOpen 0, EvTick 250, EvMessage 0 (PriceUpdate ''NIFTY'' (Some (JNumber 101.5)))]) = NoItem"
  by (simp add: handler_defs demo_defs Let_def)

subsection \<open>The challenge response\<close>

lemmas sha_defs = SHA256_def sha256_pad_def be64_def compress_def word_bytes_def
  sha256_K_def sha256_H0_def rotr_def Ch_def Maj_def Sigma0_def Sigma1_def sigma0_def sigma1_def
  add32_def not32_def

lemma replicate_numeral: "replicate (numeral k) x = x # replicate (pred_numeral k) x"
  by (simp add: numeral_eq_Suc)

lemma schedule_numeral: "schedule (numeral k) ws =
     schedule (pred_numeral k) (ws @ [add32 (add32 (sigma1 (ws ! (length ws - 2))) (ws ! (length ws - 7)))
                         (add32 (sigma0 (ws ! (length ws - 15))) (ws ! (length ws - 16)))])"
  by (simp add: numeral_eq_Suc)


text \<open>The digest of the scenario of the specification, as \<^verbatim>\<open>crypto.subtle.digest\<close> and
  \<^verbatim>\<open>btoa\<close> compute it.\<close>

lemma SHA256_abc_key:
  "SHA256 (textEncode ''abc:key'') =
     [228, 176, 199, 180, 9, 88, 217, 160, 97, 86, 21, 36, 78, 44, 138, 102,
      142, 186, 173, 34, 171, 97, 154, 187, 233, 138, 229, 19, 102, 52, 95, 207]"
  by (simp add: sha_defs replicate_numeral schedule_numeral textEncode_def Let_def)

lemma sha256_abc_key:
  "sha256 demoPlatform ''abc:key'' = ''5LDHtAlY2aBhVhUkTiyKZo66rSKrYZq76YrlE2Y0X88=''"
  by (simp add: sha256_def demoPlatform_def SHA256_abc_key b64_def base64Alphabet_def)

lemma demoPlatform_fields:
  "hasWindow demoPlatform" "urlAccepted demoPlatform u" "\<not> setItemThrows demoPlatform item"
  by (simp_all add: demoPlatform_def)

text \<open>
  Claim C4. While the handshake listener is registered on an open socket and the
  credential is \<open>k\<close>, a \<^verbatim>\<open>challenge\<close> message with challenge \<open>challenge\<close> and identifier
  \<open>challenge_id\<close> makes the client send, on that socket, one \<^verbatim>\<open>challenge_response\<close> with
  that identifier, the credential, and as signature the base64 text of the digest of
  the bytes of \<open>challenge\<close>, a colon and \<open>k\<close>; nothing else changes.
\<close>

theorem challenge_response:
  "i < length (sockets s) \<and> readyState (sockets s ! i) = OPEN \<and> apiKey c = Some k \<and>
   authListener (sockets s ! i) = Some tid \<longrightarrow>
     step P c s (EvMessage i (Challenge challenge challenge_id)) =
       s\<lparr>sockets := (sockets s)[i := (sockets s ! i)
           \<lparr>outbox := outbox (sockets s ! i) @
              [ChallengeResponse challenge_id
                 (btoa (digest P (textEncode (challenge @ '':'' @ k)))) k]\<rparr>]\<rparr>"
  by (simp add: dispatchMessage_def ws_send_def send_def sha256_def Let_def)

text \<open>The scenario of the specification: the server asks for authentication and sends
  the challenge \<open>abc\<close> with identifier \<open>1\<close>; the digest is SHA-256.\<close>

theorem challenge_response_witness:
  "readyState (sockets (run demoPlatform keyedProps (initialState demoPlatform NoItem 0)
      [EvConnect, EvOpen 0, EvMessage 0 AuthRequired]) ! 0) = OPEN \<and>
   authListener (sockets (run demoPlatform keyedProps (initialState demoPlatform NoItem 0)
      [EvConnect, EvOpen 0, EvMessage 0 AuthRequired]) ! 0) = Some 0 \<and>
   wire (run demoPlatform keyedProps (initialState demoPlatform NoItem 0)
      [EvConnect, EvOpen 0, EvMessage 0 AuthRequired, EvMessage 0 (Challenge ''abc'' ''1'')]) =
     [[RequestChallenge ''key'',
       ChallengeResponse ''1'' ''5LDHtAlY2aBhVhUkTiyKZo66rSKrYZq76YrlE2Y0X88='' ''key'']]"
  using challenge_response [of 0
      "run demoPlatform keyedProps (initialState demoPlatform NoItem 0)
         [EvConnect, EvOpen 0, EvMessage 0 AuthRequired]"
      keyedProps "''key''" 0 demoPlatform "''abc''" "''1''"]
  by (simp add: handler_defs demoProps_def keyedProps_def demoPlatform_fields wire_def Let_def
      sha256_abc_key)

subsection \<open>No credential\<close>

lemma list_all_update: "list_all Q xs \<Longrightarrow> (i < length xs \<Longrightarrow> Q t) \<Longrightarrow> list_all Q (xs[i := t])"
proof (cases "i < length xs")
  case True
  assume "list_all Q xs" "i < length xs \<Longrightarrow> Q t"
  with True show ?thesis
    using set_update_subset_insert [of xs i t] by (auto simp: list_all_iff)
next
  case False
  assume "list_all Q xs"
  with False show ?thesis
    by (simp add: list_update_beyond)
qed

lemma quiet_nth: "noAuthTraffic s \<Longrightarrow> i < length (sockets s) \<Longrightarrow> quiet (sockets s ! i)"
  by (simp add: noAuthTraffic_def list_all_length)

lemma noAuth_update:
  "noAuthTraffic s \<Longrightarrow> (i < length (sockets s) \<Longrightarrow> quiet t) \<Longrightarrow>
   noAuthTraffic (s\<lparr>sockets := (sockets s)[i := t]\<rparr>)"
  by (simp add: noAuthTraffic_def list_all_update)

lemma quiet_close: "quiet t \<Longrightarrow> quiet (close t)"
  by (auto simp: quiet_def close_def split: readyState.splits)

lemma quiet_send:
  "quiet t \<Longrightarrow> \<not> isAuthMsg m \<Longrightarrow> send m t = Inr t' \<Longrightarrow> quiet t'"
  by (auto simp: quiet_def send_def split: readyState.splits)

lemma noAuth_ws_close: "noAuthTraffic s \<Longrightarrow> noAuthTraffic (ws_close i s)"
  unfolding ws_close_def by (rule noAuth_update) (simp_all add: quiet_close quiet_nth)

lemma noAuth_ws_send:
  assumes "noAuthTraffic s" "\<not> isAuthMsg m" "ws_send i m s = Inr s'"
  shows "noAuthTraffic s'"
proof -
  from assms(3) obtain t' where t': "send m (sockets s ! i) = Inr t'"
    and s': "s' = s\<lparr>sockets := (sockets s)[i := t']\<rparr>"
    by (auto simp: ws_send_def split: sum.splits)
  show ?thesis
    unfolding s' using assms(1)
  proof (rule noAuth_update)
    assume "i < length (sockets s)"
    with assms(1) have "quiet (sockets s ! i)" by (rule quiet_nth)
    then show "quiet t'" using assms(2) t' by (rule quiet_send)
  qed
qed

lemma noAuth_setReadyState: "noAuthTraffic s \<Longrightarrow> noAuthTraffic (setReadyState i r s)"
  unfolding setReadyState_def
  by (rule noAuth_update) (auto dest: quiet_nth simp: quiet_def)

lemma noAuth_onopen_resume: "noAuthTraffic s \<Longrightarrow> noAuthTraffic (onopen_resume i b s)"
  by (auto simp: onopen_resume_def noAuth_ws_close split: sum.splits
      elim: noAuth_ws_send [rotated 2])

lemma noAuth_resolve: "noAuthTraffic s \<Longrightarrow> noAuthTraffic (resolve i b s)"
proof -
  assume a: "noAuthTraffic s"
  have "noAuthTraffic (s\<lparr>sockets := (sockets s)[i := (sockets s ! i)\<lparr>authPending := False\<rparr>]\<rparr>)"
    using a by (rule noAuth_update) (auto dest: quiet_nth [OF a] simp: quiet_def)
  then show ?thesis
    using a by (simp add: resolve_def noAuth_onopen_resume)
qed

lemma noAuth_connect: "noAuthTraffic s \<Longrightarrow> noAuthTraffic (connect P c s)"
proof -
  assume a: "noAuthTraffic s"
  have b: "noAuthTraffic (case wsRef s of None \<Rightarrow> s\<lparr>connectionInProgressRef := True\<rparr>
             | Some i \<Rightarrow> ws_close i (s\<lparr>connectionInProgressRef := True\<rparr>))"
    using a noAuth_ws_close [of "s\<lparr>connectionInProgressRef := True\<rparr>"]
    by (auto simp: noAuthTraffic_def split: option.splits)
  then show ?thesis
    using a
    by (auto simp: connect_def Let_def noAuthTraffic_def newWebSocket_def quiet_def)
qed

lemma noAuth_subscribe: "noAuthTraffic s \<Longrightarrow> noAuthTraffic (subscribe S s)"
proof -
  assume a: "noAuthTraffic s"
  have "noAuthTraffic (s\<lparr>subscribedSymbolsRef := xs\<rparr>)" for xs
    using a by (simp add: noAuthTraffic_def)
  then show ?thesis
    using a
    by (auto simp: subscribe_def Let_def split: option.splits sum.splits
        elim!: noAuth_ws_send [rotated 2])
qed

lemma noAuth_unsubscribe: "noAuthTraffic s \<Longrightarrow> noAuthTraffic (unsubscribe S s)"
proof -
  assume a: "noAuthTraffic s"
  have "noAuthTraffic (s\<lparr>subscribedSymbolsRef := xs\<rparr>)" for xs
    using a by (simp add: noAuthTraffic_def)
  then show ?thesis
    using a
    by (auto simp: unsubscribe_def Let_def split: option.splits sum.splits
        elim!: noAuth_ws_send [rotated 2])
qed

lemma noAuth_cleanup: "noAuthTraffic s \<Longrightarrow> noAuthTraffic (cleanup s)"
proof -
  assume a: "noAuthTraffic s"
  have "noAuthTraffic (clearTimeout tid s)" for tid
    using a by (simp add: noAuthTraffic_def clearTimeout_def)
  then show ?thesis
    using a by (auto simp: cleanup_def Let_def noAuth_ws_close split: option.splits)
qed

lemma noAuth_onopen:
  "noApiKey (apiKey c) \<Longrightarrow> noAuthTraffic s \<Longrightarrow> noAuthTraffic (onopen c i s)"
proof -
  assume k: "noApiKey (apiKey c)" and a: "noAuthTraffic s"
  have "noAuthTraffic (s\<lparr>isConnected := True, error := None, connectionInProgressRef := False,
      isAuthenticated := True\<rparr>)"
    using a by (simp add: noAuthTraffic_def)
  then show ?thesis
    using k by (simp add: onopen_def authenticate_def Let_def noAuth_onopen_resume)
qed

lemma noAuth_onmessage: "noAuthTraffic s \<Longrightarrow> noAuthTraffic (onmessage P m s)"
  by (cases m) (auto simp: noAuthTraffic_def setPrices_def persistPrices_def Let_def)

lemma onmessage_sockets: "sockets (onmessage P m s) = sockets s"
  by (cases m) (auto simp: setPrices_def persistPrices_def Let_def)

lemma noAuth_dispatch:
  "noAuthTraffic s \<Longrightarrow> i < length (sockets s) \<Longrightarrow> noAuthTraffic (dispatchMessage P c i m s)"
proof -
  assume a: "noAuthTraffic s" and i: "i < length (sockets s)"
  have "quiet (sockets (onmessage P m s) ! i)"
    using a i by (simp add: onmessage_sockets quiet_nth)
  then have "authListener (sockets (onmessage P m s) ! i) = None"
    by (simp add: quiet_def)
  then show ?thesis
    using a by (simp add: dispatchMessage_def Let_def noAuth_onmessage)
qed

lemma noAuth_onclose: "noAuthTraffic s \<Longrightarrow> noAuthTraffic (onclose c code s)"
  by (auto simp: noAuthTraffic_def onclose_def setTimeout_def Let_def split: prod.splits)

lemma noAuth_runTimer: "noAuthTraffic s \<Longrightarrow> noAuthTraffic (runTimer P c cb s)"
proof -
  assume a: "noAuthTraffic s"
  have "noAuthTraffic (s\<lparr>error := e, authenticationInProgressRef := False\<rparr>)" for e
    using a by (simp add: noAuthTraffic_def)
  then show ?thesis
    using a
    by (cases cb) (simp_all add: runTimer_def authTimeoutCallback_def noAuth_resolve noAuth_connect)
qed

lemma noAuth_step:
  assumes "noApiKey (apiKey c)" "noAuthTraffic s"
  shows "noAuthTraffic (step P c s e)"
proof (cases e)
  case (EvTimer tid)
  have "noAuthTraffic (clearTimeout tid s)"
    using assms(2) by (simp add: noAuthTraffic_def clearTimeout_def)
  then show ?thesis
    using assms(2) by (simp add: EvTimer noAuth_runTimer split: option.splits)
next
  case (EvTick ms)
  then show ?thesis using assms(2) by (simp add: noAuthTraffic_def)
next
  case (EvError i)
  then show ?thesis using assms(2) by (simp add: noAuthTraffic_def onerror_def)
qed (simp_all add: assms noAuth_connect noAuth_subscribe noAuth_unsubscribe noAuth_cleanup
      noAuth_onopen noAuth_setReadyState noAuth_dispatch noAuth_onclose)

lemma noAuth_run:
  "noApiKey (apiKey c) \<Longrightarrow> noAuthTraffic s \<Longrightarrow> noAuthTraffic (run P c s es)"
  by (induction es arbitrary: s) (simp_all add: run_def noAuth_step)


lemma noAuth_wire: "noAuthTraffic s \<Longrightarrow> \<not> list_ex isAuthMsg (concat (wire s))"
  by (auto simp: noAuthTraffic_def quiet_def wire_def list_all_iff list_ex_iff)

lemma noAuth_initialState: "noAuthTraffic (initialState P item dateNow)"
  by (simp add: noAuthTraffic_def initialState_def)

text \<open>
  Claim C5. With no credential configured (absent or empty), \<^verbatim>\<open>authenticate\<close> returns
  a promise already resolved to \<^verbatim>\<open>true\<close> and its only effect is to set
  \<^verbatim>\<open>isAuthenticated\<close>; so the client is authenticated as soon as a socket opens. No
  event ever registers a handshake listener or sends an authentication message: whatever
  events follow the construction of the provider, no socket carries one.
\<close>

theorem no_credential:
  "noApiKey (apiKey c) \<longrightarrow>
     authenticate c i s = (Resolved True, s\<lparr>isAuthenticated := True\<rparr>) \<and>
     (i < length (sockets s) \<and> readyState (sockets s ! i) = CONNECTING \<longrightarrow>
        isAuthenticated (step P c s (EvOpen i))) \<and>
     (noAuthTraffic s \<longrightarrow> noAuthTraffic (run P c s es)) \<and>
     \<not> list_ex isAuthMsg (concat (wire (run P c (initialState P item dateNow) es)))"
proof (intro impI conjI)
  assume k: "noApiKey (apiKey c)"
  then show "authenticate c i s = (Resolved True, s\<lparr>isAuthenticated := True\<rparr>)"
    by (simp add: authenticate_def)
  show "isAuthenticated (step P c s (EvOpen i))"
    if "i < length (sockets s) \<and> readyState (sockets s ! i) = CONNECTING"
    using that k open_without_key [of i s c P] by simp
  show "noAuthTraffic (run P c s es)" if "noAuthTraffic s"
    using k that by (rule noAuth_run)
  have "noAuthTraffic (run P c (initialState P item dateNow) es)"
    using k noAuth_initialState by (rule noAuth_run)
  then show "\<not> list_ex isAuthMsg (concat (wire (run P c (initialState P item dateNow) es)))"
    by (rule noAuth_wire)
qed

text \<open>A provider without credential whose server nevertheless asks for authentication
  and sends a challenge: the client answers neither.\<close>

theorem no_credential_witness:
  "noApiKey (apiKey demoProps) \<and>
   isAuthenticated (run demoPlatform demoProps (initialState demoPlatform NoItem 0)
      [EvConnect, EvOpen 0]) \<and>
   wire (run demoPlatform demoProps (initialState demoPlatform NoItem 0)
      [EvConnect, EvSubscribe [''NIFTY''], EvOpen 0, EvMessage 0 AuthRequired,
       EvMessage 0 (Challenge ''abc'' ''1'')]) = [[SubscribeMsg [''NIFTY'']]]"
  using no_credential [of demoProps 0
      "run demoPlatform demoProps (initialState demoPlatform NoItem 0) [EvConnect]"
      demoPlatform
      "[EvConnect, EvSubscribe [''NIFTY''], EvOpen 0, EvMessage 0 AuthRequired,
        EvMessage 0 (Challenge ''abc'' ''1'')]" NoItem 0]
  by (simp add: handler_defs demo_defs wire_def Let_def)

subsection \<open>The authentication timeout\<close>

lemma find_fresh:
  "list_all (\<lambda>t. timerId t < n) ts \<Longrightarrow> find (\<lambda>t. timerId t = n) (ts @ [x]) = (if timerId x = n then Some x else None)"
  by (induction ts) auto

lemma find_filter_None: "find (\<lambda>t. timerId t = n) (filter (\<lambda>t. timerId t \<noteq> n) ts) = None"
  by (induction ts) auto

lemma timeout_fires:
  assumes "find (\<lambda>t. timerId t = tid) (timers s) = Some t" "callback t = AuthTimeoutCb i"
    "due t \<le> now s" "i < length (sockets s)" "authPending (sockets s ! i)"
  shows "\<not> authPending (sockets (step P c s (EvTimer tid)) ! i) \<and>
     \<not> authenticationInProgressRef (step P c s (EvTimer tid)) \<and>
     error (step P c s (EvTimer tid)) = Some ''Authentication timeout'' \<and>
     readyState (sockets (step P c s (EvTimer tid)) ! i) \<noteq> CONNECTING \<and>
     readyState (sockets (step P c s (EvTimer tid)) ! i) \<noteq> OPEN \<and>
     (readyState (sockets s ! i) = OPEN \<longrightarrow>
        readyState (sockets (step P c s (EvTimer tid)) ! i) = CLOSING)"
  using assms
  by (simp add: runTimer_def authTimeoutCallback_def resolve_def clearTimeout_def
      onopen_resume_def ws_close_def close_def split: readyState.splits)

lemma sameHandshake_refl: "sameHandshake s s"
  by (simp add: sameHandshake_def)

lemma sameHandshake_trans: "sameHandshake s s' \<Longrightarrow> sameHandshake s' s'' \<Longrightarrow> sameHandshake s s''"
  by (simp add: sameHandshake_def)

lemma sameHandshake_nth:
  assumes "sameHandshake s s'"
  shows "length (sockets s') = length (sockets s)"
    and "i < length (sockets s) \<Longrightarrow> readyState (sockets s' ! i) = readyState (sockets s ! i)"
    and "i < length (sockets s) \<Longrightarrow> authListener (sockets s' ! i) = authListener (sockets s ! i)"
    and "i < length (sockets s) \<Longrightarrow> authPending (sockets s' ! i) = authPending (sockets s ! i)"
proof -
  from assms have m: "map readyState (sockets s') = map readyState (sockets s)"
    "map authListener (sockets s') = map authListener (sockets s)"
    "map authPending (sockets s') = map authPending (sockets s)"
    by (simp_all add: sameHandshake_def)
  from m(1) show len: "length (sockets s') = length (sockets s)"
    by (rule map_eq_imp_length_eq)
  show "readyState (sockets s' ! i) = readyState (sockets s ! i)" if "i < length (sockets s)"
    using that len m(1) by (metis nth_map)
  show "authListener (sockets s' ! i) = authListener (sockets s ! i)" if "i < length (sockets s)"
    using that len m(2) by (metis nth_map)
  show "authPending (sockets s' ! i) = authPending (sockets s ! i)" if "i < length (sockets s)"
    using that len m(3) by (metis nth_map)
qed

lemma sameHandshake_awaiting:
  assumes "sameHandshake s s'" "awaitingUntil i tid D s"
  shows "awaitingUntil i tid D s'"
proof -
  from assms(2) have i: "i < length (sockets s)" by (simp add: awaitingUntil_def)
  note n = sameHandshake_nth [OF assms(1)]
  from assms show ?thesis
    by (simp add: awaitingUntil_def n(1) n(2) [OF i] n(3) [OF i] n(4) [OF i])
      (simp add: sameHandshake_def)
qed

lemma sameHandshake_failed:
  assumes "sameHandshake s s'" "failedEarly i tid s"
  shows "failedEarly i tid s'"
proof -
  from assms(2) have i: "i < length (sockets s)" by (simp add: failedEarly_def)
  note n = sameHandshake_nth [OF assms(1)]
  from assms show ?thesis
    by (simp add: failedEarly_def n(1) n(2) [OF i] n(3) [OF i] n(4) [OF i])
      (simp add: sameHandshake_def)
qed

lemma send_fields:
  "send m t = Inr t' \<Longrightarrow>
   readyState t' = readyState t \<and> authListener t' = authListener t \<and> authPending t' = authPending t"
  by (auto simp: send_def split: readyState.splits)

lemma hs_ws_send:
  assumes "ws_send j m s = Inr s'"
  shows "sameHandshake s s'"
proof -
  from assms obtain t' where t': "send m (sockets s ! j) = Inr t'"
    and s': "s' = s\<lparr>sockets := (sockets s)[j := t']\<rparr>"
    by (auto simp: ws_send_def split: sum.splits)
  note f = send_fields [OF t']
  have "map readyState (sockets s') = (map readyState (sockets s))[j := readyState (sockets s ! j)]"
    "map authListener (sockets s') = (map authListener (sockets s))[j := authListener (sockets s ! j)]"
    "map authPending (sockets s') = (map authPending (sockets s))[j := authPending (sockets s ! j)]"
    unfolding s' by (simp_all add: map_update f)
  then show ?thesis
    by (simp add: sameHandshake_def map_update_same s')
qed

lemma hs_subscribe: "sameHandshake s (subscribe S s)"
proof -
  have "sameHandshake s (s\<lparr>subscribedSymbolsRef := xs\<rparr>)" for xs
    by (simp add: sameHandshake_def)
  then show ?thesis
    by (auto simp: subscribe_def Let_def sameHandshake_refl split: option.splits sum.splits
        intro: sameHandshake_trans hs_ws_send)
qed

lemma hs_unsubscribe: "sameHandshake s (unsubscribe S s)"
proof -
  have "sameHandshake s (s\<lparr>subscribedSymbolsRef := xs\<rparr>)" for xs
    by (simp add: sameHandshake_def)
  then show ?thesis
    by (auto simp: unsubscribe_def Let_def sameHandshake_refl split: option.splits sum.splits
        intro: sameHandshake_trans hs_ws_send)
qed


lemma awaitingUntil_frame:
  assumes "awaitingUntil i tid D s" "apiKey c = Some k" "notTerminal m"
  shows "(if m = Malformed then failedEarly i tid (step P c s (EvMessage i m))
          else awaitingUntil i tid D (step P c s (EvMessage i m))) \<and>
         now (step P c s (EvMessage i m)) = now s"
  using assms
  by (cases m)
    (simp_all add: awaitingUntil_def failedEarly_def dispatchMessage_def Let_def ws_send_def
      send_def setPrices_def persistPrices_def messageHandlerCatch_def resolve_def
      removeEventListener_def clearTimeout_def onopen_resume_def ws_close_def close_def
      find_filter_None)

lemma neutral_awaiting:
  assumes "awaitingUntil i tid D s" "apiKey c = Some k" "handshakeNeutral i e"
  shows "(if e = EvMessage i Malformed then failedEarly i tid (step P c s e)
          else awaitingUntil i tid D (step P c s e)) \<and>
         now (step P c s e) = now s + int (elapsed [e])"
proof (cases e)
  case (EvTick ms)
  with assms(1) show ?thesis by (simp add: awaitingUntil_def)
next
  case (EvMessage j m)
  with assms(3) have j: "j = i" and m: "notTerminal m" by simp_all
  from awaitingUntil_frame [OF assms(1,2) m, of P] show ?thesis
    unfolding EvMessage j by (cases "m = Malformed") (simp_all del: step.simps)
next
  case (EvSubscribe S)
  have "sameHandshake s (subscribe S s)" by (rule hs_subscribe)
  from sameHandshake_awaiting [OF this assms(1)] this show ?thesis
    by (simp add: EvSubscribe sameHandshake_def)
next
  case (EvUnsubscribe S)
  have "sameHandshake s (unsubscribe S s)" by (rule hs_unsubscribe)
  from sameHandshake_awaiting [OF this assms(1)] this show ?thesis
    by (simp add: EvUnsubscribe sameHandshake_def)
qed (use assms(3) in simp_all)

lemma neutral_failed:
  assumes "failedEarly i tid s" "handshakeNeutral i e"
  shows "failedEarly i tid (step P c s e) \<and> now (step P c s e) = now s + int (elapsed [e])"
proof (cases e)
  case (EvTick ms)
  with assms(1) show ?thesis by (simp add: failedEarly_def)
next
  case (EvMessage j m)
  with assms(2) have j: "j = i" by simp
  from assms(1) show ?thesis
    unfolding EvMessage j by (simp add: failedEarly_def)
next
  case (EvSubscribe S)
  have "sameHandshake s (subscribe S s)" by (rule hs_subscribe)
  from sameHandshake_failed [OF this assms(1)] this show ?thesis
    by (simp add: EvSubscribe sameHandshake_def)
next
  case (EvUnsubscribe S)
  have "sameHandshake s (unsubscribe S s)" by (rule hs_unsubscribe)
  from sameHandshake_failed [OF this assms(1)] this show ?thesis
    by (simp add: EvUnsubscribe sameHandshake_def)
qed (use assms(2) in simp_all)

lemma elapsed_Cons: "elapsed (e # es) = elapsed [e] + elapsed es"
  by (cases e) simp_all

lemma neutral_run_failed:
  "failedEarly i tid s \<Longrightarrow> list_all (handshakeNeutral i) es \<Longrightarrow>
   failedEarly i tid (run P c s es) \<and> now (run P c s es) = now s + int (elapsed es)"
proof (induction es arbitrary: s)
  case Nil
  then show ?case by (simp add: run_Nil)
next
  case (Cons e es)
  then have e: "handshakeNeutral i e" and es: "list_all (handshakeNeutral i) es" by simp_all
  note st = neutral_failed [OF Cons.prems(1) e, of P c]
  from Cons.IH [OF conjunct1 [OF st] es] st show ?case
    by (simp add: run_Cons elapsed_Cons [of e es] del: step.simps elapsed.simps)
qed

lemma neutral_run_awaiting:
  assumes "apiKey c = Some k"
  shows "awaitingUntil i tid D s \<Longrightarrow> list_all (handshakeNeutral i) es \<Longrightarrow>
   (if EvMessage i Malformed \<in> set es then failedEarly i tid (run P c s es)
    else awaitingUntil i tid D (run P c s es)) \<and>
   now (run P c s es) = now s + int (elapsed es)"
proof (induction es arbitrary: s)
  case Nil
  then show ?case by (simp add: run_Nil)
next
  case (Cons e es)
  then have e: "handshakeNeutral i e" and es: "list_all (handshakeNeutral i) es" by simp_all
  note st = neutral_awaiting [OF Cons.prems(1) assms e, of P]
  show ?case
  proof (cases "e = EvMessage i Malformed")
    case True
    with st have f: "failedEarly i tid (step P c s e)" by simp
    from neutral_run_failed [OF f es, of P c] st
    have "failedEarly i tid (run P c s (e # es)) \<and>
        now (run P c s (e # es)) = now s + int (elapsed (e # es))"
      by (simp add: run_Cons elapsed_Cons [of e es] del: step.simps elapsed.simps)
    moreover from True have "EvMessage i Malformed \<in> set (e # es)" by simp
    ultimately show ?thesis by (simp only: if_True)
  next
    case False
    with st have a: "awaitingUntil i tid D (step P c s e)" by simp
    from Cons.IH [OF a es] st
    have "(if EvMessage i Malformed \<in> set es then failedEarly i tid (run P c s (e # es))
        else awaitingUntil i tid D (run P c s (e # es))) \<and>
        now (run P c s (e # es)) = now s + int (elapsed (e # es))"
      by (simp add: run_Cons elapsed_Cons [of e es] del: step.simps elapsed.simps)
    moreover from False
    have "(EvMessage i Malformed \<in> set (e # es)) = (EvMessage i Malformed \<in> set es)"
      by auto
    ultimately show ?thesis by metis
  qed
qed

lemma handshake_start_until:
  assumes "\<not> noApiKey (apiKey c)" "i < length (sockets s)"
    "readyState (sockets s ! i) = CONNECTING" "\<not> authenticationInProgressRef s"
    "timersFresh s"
  shows "awaitingUntil i (nextTimerId s) (now s + 10000) (step P c s (EvOpen i))"
    and "timers (step P c s (EvOpen i)) =
      timers s @ [\<lparr>timerId = nextTimerId s, delay = 10000, due = now s + 10000,
                   callback = AuthTimeoutCb i\<rparr>]"
    and "now (step P c s (EvOpen i)) = now s"
  using assms
  by (simp_all add: awaitingUntil_def onopen_def authenticate_def setTimeout_def
      setReadyState_def AUTH_TIMEOUT_MS_def Let_def find_fresh timersFresh_def)

lemma awaitingUntil_early:
  assumes "awaitingUntil i tid D s" "now s < D"
  shows "step P c s (EvTimer tid) = s"
  using assms by (simp add: awaitingUntil_def)

lemma awaitingUntil_due:
  assumes "awaitingUntil i tid D s" "D \<le> now s"
  shows "\<not> authPending (sockets (step P c s (EvTimer tid)) ! i) \<and>
     \<not> authenticationInProgressRef (step P c s (EvTimer tid)) \<and>
     error (step P c s (EvTimer tid)) = Some ''Authentication timeout'' \<and>
     readyState (sockets (step P c s (EvTimer tid)) ! i) = CLOSING"
proof -
  from assms have "find (\<lambda>t. timerId t = tid) (timers s) =
      Some \<lparr>timerId = tid, delay = 10000, due = D, callback = AuthTimeoutCb i\<rparr>"
    and "i < length (sockets s)" and "authPending (sockets s ! i)"
    and "readyState (sockets s ! i) = OPEN"
    by (simp_all add: awaitingUntil_def)
  with assms(2) show ?thesis
    using timeout_fires [of tid s _ i P c] by (simp del: step.simps)
qed

lemma failedEarly_timer:
  assumes "failedEarly i tid s"
  shows "step P c s (EvTimer tid) = s"
  using assms by (simp add: failedEarly_def)

text \<open>
  Claim C6. A handshake that starts when a socket opens (a credential is configured, no
  other handshake is in flight, timer ids are fresh as in every reachable state) sets one
  timer, due 10000 ms after the start. Let time pass and frames other than
  \<^verbatim>\<open>authenticated\<close> and \<^verbatim>\<open>auth_error\<close> arrive on the socket, in any order and at any
  moments, while consumers subscribe and unsubscribe. As long as every frame parses, the
  promise stays pending and the timer stays as it was set, with the same deadline: if
  it has its turn before 10 seconds have passed nothing happens; once 10 seconds have
  passed it settles the promise, to failure, so that the open handler closes the
  socket, clears the guard \<^verbatim>\<open>authenticationInProgressRef\<close> and sets the error
  ``Authentication timeout''. A frame that does not parse ends the handshake at once, in
  the same way, with the error ``Authentication error'', and the timer is cancelled. In
  any state, the due timer of a pending handshake settles the promise, clears the guard,
  sets the error and leaves the socket neither connecting nor open.
\<close>

theorem auth_timeout:
  "(\<not> noApiKey (apiKey c) \<and> i < length (sockets s) \<and> readyState (sockets s ! i) = CONNECTING \<and>
    \<not> authenticationInProgressRef s \<and> timersFresh s \<and> list_all (handshakeNeutral i) es \<longrightarrow>
      timers (step P c s (EvOpen i)) =
        timers s @ [\<lparr>timerId = nextTimerId s, delay = 10000, due = now s + 10000,
                     callback = AuthTimeoutCb i\<rparr>] \<and>
      now (run P c s (EvOpen i # es)) = now s + int (elapsed es) \<and>
      (EvMessage i Malformed \<notin> set es \<longrightarrow>
         authPending (sockets (run P c s (EvOpen i # es)) ! i) \<and>
         authenticationInProgressRef (run P c s (EvOpen i # es)) \<and>
         readyState (sockets (run P c s (EvOpen i # es)) ! i) = OPEN \<and>
         find (\<lambda>t. timerId t = nextTimerId s) (timers (run P c s (EvOpen i # es))) =
           Some \<lparr>timerId = nextTimerId s, delay = 10000, due = now s + 10000,
                  callback = AuthTimeoutCb i\<rparr> \<and>
         (elapsed es < 10000 \<longrightarrow>
            run P c s (EvOpen i # es @ [EvTimer (nextTimerId s)]) = run P c s (EvOpen i # es)) \<and>
         (10000 \<le> elapsed es \<longrightarrow>
            \<not> authPending (sockets (run P c s (EvOpen i # es @ [EvTimer (nextTimerId s)])) ! i) \<and>
            \<not> authenticationInProgressRef (run P c s (EvOpen i # es @ [EvTimer (nextTimerId s)])) \<and>
            error (run P c s (EvOpen i # es @ [EvTimer (nextTimerId s)])) =
              Some ''Authentication timeout'' \<and>
            readyState (sockets (run P c s (EvOpen i # es @ [EvTimer (nextTimerId s)])) ! i) =
              CLOSING)) \<and>
      (EvMessage i Malformed \<in> set es \<longrightarrow>
         \<not> authPending (sockets (run P c s (EvOpen i # es)) ! i) \<and>
         \<not> authenticationInProgressRef (run P c s (EvOpen i # es)) \<and>
         error (run P c s (EvOpen i # es)) = Some ''Authentication error'' \<and>
         readyState (sockets (run P c s (EvOpen i # es)) ! i) = CLOSING \<and>
         run P c s (EvOpen i # es @ [EvTimer (nextTimerId s)]) = run P c s (EvOpen i # es))) \<and>
   (find (\<lambda>t. timerId t = tid) (timers s) = Some t \<and> callback t = AuthTimeoutCb i \<and>
    due t \<le> now s \<and> i < length (sockets s) \<and> authPending (sockets s ! i) \<longrightarrow>
      \<not> authPending (sockets (step P c s (EvTimer tid)) ! i) \<and>
      \<not> authenticationInProgressRef (step P c s (EvTimer tid)) \<and>
      error (step P c s (EvTimer tid)) = Some ''Authentication timeout'' \<and>
      readyState (sockets (step P c s (EvTimer tid)) ! i) \<noteq> CONNECTING \<and>
      readyState (sockets (step P c s (EvTimer tid)) ! i) \<noteq> OPEN \<and>
      (readyState (sockets s ! i) = OPEN \<longrightarrow>
         readyState (sockets (step P c s (EvTimer tid)) ! i) = CLOSING))"
proof -
  define tid0 where "tid0 = nextTimerId s"
  define s' where "s' = run P c s (EvOpen i # es)"
  have fire: "run P c s (EvOpen i # es @ [EvTimer tid0]) = step P c s' (EvTimer tid0)"
    unfolding s'_def by (simp only: run_Cons run_append run_Nil)
  have first: "timers (step P c s (EvOpen i)) =
        timers s @ [\<lparr>timerId = tid0, delay = 10000, due = now s + 10000,
                     callback = AuthTimeoutCb i\<rparr>] \<and>
      now s' = now s + int (elapsed es) \<and>
      (EvMessage i Malformed \<notin> set es \<longrightarrow>
         authPending (sockets s' ! i) \<and> authenticationInProgressRef s' \<and>
         readyState (sockets s' ! i) = OPEN \<and>
         find (\<lambda>t. timerId t = tid0) (timers s') =
           Some \<lparr>timerId = tid0, delay = 10000, due = now s + 10000,
                  callback = AuthTimeoutCb i\<rparr> \<and>
         (elapsed es < 10000 \<longrightarrow> step P c s' (EvTimer tid0) = s') \<and>
         (10000 \<le> elapsed es \<longrightarrow>
            \<not> authPending (sockets (step P c s' (EvTimer tid0)) ! i) \<and>
            \<not> authenticationInProgressRef (step P c s' (EvTimer tid0)) \<and>
            error (step P c s' (EvTimer tid0)) = Some ''Authentication timeout'' \<and>
            readyState (sockets (step P c s' (EvTimer tid0)) ! i) = CLOSING)) \<and>
      (EvMessage i Malformed \<in> set es \<longrightarrow>
         \<not> authPending (sockets s' ! i) \<and> \<not> authenticationInProgressRef s' \<and>
         error s' = Some ''Authentication error'' \<and>
         readyState (sockets s' ! i) = CLOSING \<and>
         step P c s' (EvTimer tid0) = s')"
    if a: "\<not> noApiKey (apiKey c)" "i < length (sockets s)"
      "readyState (sockets s ! i) = CONNECTING" "\<not> authenticationInProgressRef s"
      "timersFresh s" and es: "list_all (handshakeNeutral i) es"
  proof -
    from a(1) obtain k where k: "apiKey c = Some k"
      by (cases "apiKey c") auto
    define s1 where "s1 = step P c s (EvOpen i)"
    note st = handshake_start_until [OF a, of P, folded s1_def tid0_def]
    have s'_eq: "s' = run P c s1 es"
      unfolding s'_def s1_def by (simp only: run_Cons)
    note r = neutral_run_awaiting [OF k st(1) es, of P, folded s'_eq]
    from r st(3) have now': "now s' = now s + int (elapsed es)" by simp
    note tm = st(2) [unfolded s1_def]
    show ?thesis
    proof (cases "EvMessage i Malformed \<in> set es")
      case True
      with r have f: "failedEarly i tid0 s'" by simp
      from f have "step P c s' (EvTimer tid0) = s'" by (rule failedEarly_timer)
      with f True tm now' show ?thesis
        by (simp add: failedEarly_def del: step.simps)
    next
      case False
      with r have w: "awaitingUntil i tid0 (now s + 10000) s'" by simp
      have early: "step P c s' (EvTimer tid0) = s'" if "elapsed es < 10000"
        using w that now' by (intro awaitingUntil_early [OF w]) simp
      have late: "\<not> authPending (sockets (step P c s' (EvTimer tid0)) ! i) \<and>
          \<not> authenticationInProgressRef (step P c s' (EvTimer tid0)) \<and>
          error (step P c s' (EvTimer tid0)) = Some ''Authentication timeout'' \<and>
          readyState (sockets (step P c s' (EvTimer tid0)) ! i) = CLOSING"
        if "10000 \<le> elapsed es"
        using that now' by (intro awaitingUntil_due [OF w]) simp
      from w have "authPending (sockets s' ! i)" "authenticationInProgressRef s'"
        "readyState (sockets s' ! i) = OPEN"
        "find (\<lambda>t. timerId t = tid0) (timers s') =
           Some \<lparr>timerId = tid0, delay = 10000, due = now s + 10000,
                  callback = AuthTimeoutCb i\<rparr>"
        by (simp_all add: awaitingUntil_def)
      with False tm now' early late show ?thesis
        by (simp del: step.simps)
    qed
  qed
  have second: "find (\<lambda>t. timerId t = tid) (timers s) = Some t \<and> callback t = AuthTimeoutCb i \<and>
    due t \<le> now s \<and> i < length (sockets s) \<and> authPending (sockets s ! i) \<longrightarrow>
      \<not> authPending (sockets (step P c s (EvTimer tid)) ! i) \<and>
      \<not> authenticationInProgressRef (step P c s (EvTimer tid)) \<and>
      error (step P c s (EvTimer tid)) = Some ''Authentication timeout'' \<and>
      readyState (sockets (step P c s (EvTimer tid)) ! i) \<noteq> CONNECTING \<and>
      readyState (sockets (step P c s (EvTimer tid)) ! i) \<noteq> OPEN \<and>
      (readyState (sockets s ! i) = OPEN \<longrightarrow>
         readyState (sockets (step P c s (EvTimer tid)) ! i) = CLOSING)"
    using timeout_fires [of tid s t i P c] by blast
  from first second show ?thesis
    unfolding fire [unfolded tid0_def] s'_def tid0_def by blast
qed

text \<open>A handshake on a fresh provider with a credential. Frames arrive and a consumer
  subscribes while time passes: after 9999 ms the timer changes nothing, after 10000 ms
  it fails the handshake, and its deadline is the one set at the start throughout. A
  frame that does not parse fails the handshake after 3000 ms.\<close>

theorem auth_timeout_witness:
  "\<not> noApiKey (apiKey keyedProps) \<and>
   readyState (sockets (run demoPlatform keyedProps (initialState demoPlatform NoItem 0)
      [EvConnect]) ! 0) = CONNECTING \<and>
   timers (run demoPlatform keyedProps (initialState demoPlatform NoItem 0)
      [EvConnect, EvOpen 0]) =
     [\<lparr>timerId = 0, delay = 10000, due = 10000, callback = AuthTimeoutCb 0\<rparr>] \<and>
   elapsed [EvTick 4000, EvMessage 0 AuthRequired, EvSubscribe [''NIFTY''], EvTick 5000,
       EvMessage 0 (PriceUpdate ''NIFTY'' (Some (JNumber 7))), EvTick 999] = 9999 \<and>
   now (run demoPlatform keyedProps (initialState demoPlatform NoItem 0)
      [EvConnect, EvOpen 0, EvTick 4000, EvMessage 0 AuthRequired, EvSubscribe [''NIFTY''],
       EvTick 5000, EvMessage 0 (PriceUpdate ''NIFTY'' (Some (JNumber 7))), EvTick 999]) = 9999 \<and>
   timers (run demoPlatform keyedProps (initialState demoPlatform NoItem 0)
      [EvConnect, EvOpen 0, EvTick 4000, EvMessage 0 AuthRequired, EvSubscribe [''NIFTY''],
       EvTick 5000, EvMessage 0 (PriceUpdate ''NIFTY'' (Some (JNumber 7))), EvTick 999]) =
     [\<lparr>timerId = 0, delay = 10000, due = 10000, callback = AuthTimeoutCb 0\<rparr>] \<and>
   authPending (sockets (run demoPlatform keyedProps (initialState demoPlatform NoItem 0)
      [EvConnect, EvOpen 0, EvTick 4000, EvMessage 0 AuthRequired, EvSubscribe [''NIFTY''],
       EvTick 5000, EvMessage 0 (PriceUpdate ''NIFTY'' (Some (JNumber 7))), EvTick 999,
       EvTimer 0]) ! 0) \<and>
   timers (run demoPlatform keyedProps (initialState demoPlatform NoItem 0)
      [EvConnect, EvOpen 0, EvTick 4000, EvMessage 0 AuthRequired, EvSubscribe [''NIFTY''],
       EvTick 5000, EvMessage 0 (PriceUpdate ''NIFTY'' (Some (JNumber 7))), EvTick 1000]) =
     [\<lparr>timerId = 0, delay = 10000, due = 10000, callback = AuthTimeoutCb 0\<rparr>] \<and>
   error (run demoPlatform keyedProps (initialState demoPlatform NoItem 0)
      [EvConnect, EvOpen 0, EvTick 4000, EvMessage 0 AuthRequired, EvSubscribe [''NIFTY''],
       EvTick 5000, EvMessage 0 (PriceUpdate ''NIFTY'' (Some (JNumber 7))), EvTick 1000,
       EvTimer 0]) = Some ''Authentication timeout'' \<and>
   readyState (sockets (run demoPlatform keyedProps (initialState demoPlatform NoItem 0)
      [EvConnect, EvOpen 0, EvTick 4000, EvMessage 0 AuthRequired, EvSubscribe [''NIFTY''],
       EvTick 5000, EvMessage 0 (PriceUpdate ''NIFTY'' (Some (JNumber 7))), EvTick 1000,
       EvTimer 0]) ! 0) = CLOSING \<and>
   \<not> authenticationInProgressRef (run demoPlatform keyedProps (initialState demoPlatform NoItem 0)
      [EvConnect, EvOpen 0, EvTick 4000, EvMessage 0 AuthRequired, EvSubscribe [''NIFTY''],
       EvTick 5000, EvMessage 0 (PriceUpdate ''NIFTY'' (Some (JNumber 7))), EvTick 1000,
       EvTimer 0]) \<and>
   timers (run demoPlatform keyedProps (initialState demoPlatform NoItem 0)
      [EvConnect, EvOpen 0, EvTick 4000, EvMessage 0 AuthRequired, EvSubscribe [''NIFTY''],
       EvTick 5000, EvMessage 0 (PriceUpdate ''NIFTY'' (Some (JNumber 7))), EvTick 1000,
       EvTimer 0, EvClose 0 1005]) =
     [\<lparr>timerId = 1, delay = 5000, due = 15000, callback = ReconnectCb\<rparr>] \<and>
   error (run demoPlatform keyedProps (initialState demoPlatform NoItem 0)
      [EvConnect, EvOpen 0, EvTick 3000, EvMessage 0 Malformed, EvTick 8000]) =
     Some ''Authentication error'' \<and>
   readyState (sockets (run demoPlatform keyedProps (initialState demoPlatform NoItem 0)
      [EvConnect, EvOpen 0, EvTick 3000, EvMessage 0 Malformed, EvTick 8000, EvTimer 0]) ! 0) =
     CLOSING"
  using auth_timeout [where c = keyedProps and i = 0 and P = demoPlatform
      and s = "run demoPlatform keyedProps (initialState demoPlatform NoItem 0) [EvConnect]"
      and es = "[EvTick 4000, EvMessage 0 AuthRequired, EvSubscribe [''NIFTY''], EvTick 5000,
        EvMessage 0 (PriceUpdate ''NIFTY'' (Some (JNumber 7))), EvTick 999]"
      and tid = 0
      and t = "\<lparr>timerId = 0, delay = 10000, due = 10000, callback = AuthTimeoutCb 0\<rparr>"]
    auth_timeout [where c = keyedProps and i = 0 and P = demoPlatform
      and s = "run demoPlatform keyedProps (initialState demoPlatform NoItem 0) [EvConnect]"
      and es = "[EvTick 4000, EvMessage 0 AuthRequired, EvSubscribe [''NIFTY''], EvTick 5000,
        EvMessage 0 (PriceUpdate ''NIFTY'' (Some (JNumber 7))), EvTick 1000]"
      and tid = 0
      and t = "\<lparr>timerId = 0, delay = 10000, due = 10000, callback = AuthTimeoutCb 0\<rparr>"]
    auth_timeout [where c = keyedProps and i = 0 and P = demoPlatform
      and s = "run demoPlatform keyedProps (initialState demoPlatform NoItem 0) [EvConnect]"
      and es = "[EvTick 3000, EvMessage 0 Malformed, EvTick 8000]"
      and tid = 0
      and t = "\<lparr>timerId = 0, delay = 10000, due = 10000, callback = AuthTimeoutCb 0\<rparr>"]
    auth_timeout [where c = keyedProps and i = 0 and P = demoPlatform
      and s = "run demoPlatform keyedProps (initialState demoPlatform NoItem 0)
         [EvConnect, EvOpen 0, EvTick 4000, EvMessage 0 AuthRequired, EvSubscribe [''NIFTY''],
          EvTick 5000, EvMessage 0 (PriceUpdate ''NIFTY'' (Some (JNumber 7))), EvTick 1000]"
      and es = "[]" and tid = 0
      and t = "\<lparr>timerId = 0, delay = 10000, due = 10000, callback = AuthTimeoutCb 0\<rparr>"]
  by (simp add: handler_defs demo_defs timersFresh_def Let_def)

end
